theory Spec2Isabelle
  imports Complex_Main
begin

section \<open>Conventions of the embedding\<close>

text \<open>
  The bot is written in Python. Its numbers are Python floats; the embedding reads them as
  real numbers with exact arithmetic, so the theorems below are about the formulas of the
  code and not about rounding. Counters and signal strengths, which are Python ints, are
  \<open>int\<close>. A naive \<open>datetime\<close> is the number of microseconds since an arbitrary epoch.

  Python raises \<open>ZeroDivisionError\<close> when the divisor of \<open>/\<close> is zero, for floats as for
  ints; every division of the source is therefore \<open>py_truediv\<close>, whose result is a sum
  with the exception on the left. A leading underscore of a Python name is dropped, since
  an Isabelle name starts with a letter.
\<close>

datatype py_error = ZeroDivisionError | ValueError | KeyError

definition py_truediv :: "real \<Rightarrow> real \<Rightarrow> py_error + real" where
  "py_truediv a b = (if b = 0 then Inl ZeroDivisionError else Inr (a / b))"

text \<open>\<open>int(x)\<close> of a float truncates towards zero.\<close>

definition py_int :: "real \<Rightarrow> int" where
  "py_int x = (if 0 \<le> x then \<lfloor>x\<rfloor> else \<lceil>x\<rceil>)"

section \<open>Configuration (config.py)\<close>

text \<open>The fields of \<open>BotConfig\<close> that the modelled functions read.\<close>

record config =
  VP_LOOKBACK_HOURS :: int
  VP_PRICE_BINS :: int
  VP_VALUE_AREA_PERCENT :: real
  POSITION_SIZING_METHOD :: string
  RISK_PER_TRADE_PERCENT :: real
  FIXED_POSITION_SIZE_USDT :: real
  KELLY_WIN_RATE :: real
  KELLY_RISK_REWARD :: real
  KELLY_FRACTION :: real
  MAX_ACCOUNT_RISK_PERCENT :: real
  MAX_DAILY_LOSS_PERCENT :: real
  MAX_POSITIONS :: int
  STOP_LOSS_PERCENT :: real
  TAKE_PROFIT_PERCENT :: real
  TRAILING_STOP_ENABLED :: bool
  TRAILING_STOP_PERCENT :: real
  MIN_SIGNAL_STRENGTH :: int
  REQUIRE_TREND_CONFIRMATION :: bool
  ENABLE_TRADING :: bool
  EMERGENCY_STOP :: bool

text \<open>The defaults of the dataclass.\<close>

definition default_config :: config where
  "default_config = \<lparr>
     VP_LOOKBACK_HOURS = 24,
     VP_PRICE_BINS = 100,
     VP_VALUE_AREA_PERCENT = 70,
     POSITION_SIZING_METHOD = ''fixed_percent'',
     RISK_PER_TRADE_PERCENT = 1,
     FIXED_POSITION_SIZE_USDT = 50,
     KELLY_WIN_RATE = 55 / 100,
     KELLY_RISK_REWARD = 2,
     KELLY_FRACTION = 25 / 100,
     MAX_ACCOUNT_RISK_PERCENT = 5,
     MAX_DAILY_LOSS_PERCENT = 3,
     MAX_POSITIONS = 3,
     STOP_LOSS_PERCENT = 2,
     TAKE_PROFIT_PERCENT = 4,
     TRAILING_STOP_ENABLED = True,
     TRAILING_STOP_PERCENT = 15 / 10,
     MIN_SIGNAL_STRENGTH = 60,
     REQUIRE_TREND_CONFIRMATION = True,
     ENABLE_TRADING = True,
     EMERGENCY_STOP = False \<rparr>"

section \<open>Market data state (data_collector.py)\<close>

text \<open>
  A trade of the trade buffer and a position of the account, as the dictionaries of the
  data collector hold them. The exchange sends the numbers of a position as decimal
  strings and the code reads each with \<open>float(...)\<close>; the record holds the number read.
\<close>

record trade =
  timestamp :: int
  price :: real
  quantity :: real
  is_buyer_maker :: bool
  trade_id :: int

record position =
  symbol :: string
  positionSide :: string
  entryPrice :: real
  positionAmt :: real
  unRealizedProfit :: real

record data_collector =
  trades :: "trade list"
  current_price :: real
  account_balance :: real
  open_positions :: "position list"
  daily_pnl :: real
  daily_trades :: int

section \<open>Position sizing (position_sizer.py)\<close>

text \<open>
  The dictionary a sizing method returns. The two keys that only one method writes
  (\<open>risk_percent\<close>, \<open>kelly_percent\<close>) are optional fields.
\<close>

record position_size =
  quantity_btc :: real
  notional_usdt :: real
  risk_usdt :: real
  method_tag :: string
  risk_percent :: "real option"
  kelly_percent :: "real option"

definition fixed_percent_sizing :: "config \<Rightarrow> real \<Rightarrow> real \<Rightarrow> real \<Rightarrow> py_error + position_size" where
  "fixed_percent_sizing cfg balance entry_price risk_per_btc =
     (let risk_amount = balance * (RISK_PER_TRADE_PERCENT cfg / 100) in
      case py_truediv risk_amount risk_per_btc of
        Inl e \<Rightarrow> Inl e
      | Inr qty \<Rightarrow>
          Inr \<lparr> quantity_btc = qty,
                notional_usdt = qty * entry_price,
                risk_usdt = risk_amount,
                method_tag = ''fixed_percent'',
                risk_percent = Some (RISK_PER_TRADE_PERCENT cfg),
                kelly_percent = None \<rparr>)"

definition fixed_dollar_sizing :: "config \<Rightarrow> real \<Rightarrow> real \<Rightarrow> py_error + position_size" where
  "fixed_dollar_sizing cfg entry_price risk_per_btc =
     (let notional = FIXED_POSITION_SIZE_USDT cfg in
      case py_truediv notional entry_price of
        Inl e \<Rightarrow> Inl e
      | Inr qty \<Rightarrow>
          Inr \<lparr> quantity_btc = qty,
                notional_usdt = notional,
                risk_usdt = qty * risk_per_btc,
                method_tag = ''fixed_dollar'',
                risk_percent = None,
                kelly_percent = None \<rparr>)"

definition kelly_sizing :: "config \<Rightarrow> real \<Rightarrow> real \<Rightarrow> real \<Rightarrow> int \<Rightarrow> py_error + position_size" where
  "kelly_sizing cfg balance entry_price risk_per_btc signal_strength =
     (let win_rate = KELLY_WIN_RATE cfg;
          risk_reward = KELLY_RISK_REWARD cfg in
      case py_truediv ((win_rate * risk_reward) - (1 - win_rate)) risk_reward of
        Inl e \<Rightarrow> Inl e
      | Inr k0 \<Rightarrow>
          (let k1 = max 0 k0;
               k2 = k1 * KELLY_FRACTION cfg;
               confidence_factor = real_of_int signal_strength / 100;
               k3 = k2 * confidence_factor;
               risk_amount = balance * k3 in
           case py_truediv risk_amount risk_per_btc of
             Inl e \<Rightarrow> Inl e
           | Inr qty \<Rightarrow>
               Inr \<lparr> quantity_btc = qty,
                     notional_usdt = qty * entry_price,
                     risk_usdt = risk_amount,
                     method_tag = ''kelly'',
                     risk_percent = None,
                     kelly_percent = Some (k3 * 100) \<rparr>))"

definition no_balance :: position_size where
  "no_balance = \<lparr> quantity_btc = 0, notional_usdt = 0, risk_usdt = 0,
                   method_tag = ''no_balance'', risk_percent = None, kelly_percent = None \<rparr>"

definition calculate_position_size ::
  "config \<Rightarrow> data_collector \<Rightarrow> real \<Rightarrow> real \<Rightarrow> int \<Rightarrow> py_error + position_size" where
  "calculate_position_size cfg dc entry_price stop_loss_price signal_strength =
     (let balance = account_balance dc in
      if balance \<le> 0 then Inr no_balance
      else
        (let risk_per_btc = \<bar>entry_price - stop_loss_price\<bar> in
         case py_truediv risk_per_btc entry_price of
           Inl e \<Rightarrow> Inl e
         | Inr risk_percent_unused \<Rightarrow>
             if POSITION_SIZING_METHOD cfg = ''fixed_percent''
               then fixed_percent_sizing cfg balance entry_price risk_per_btc
             else if POSITION_SIZING_METHOD cfg = ''fixed_dollar''
               then fixed_dollar_sizing cfg entry_price risk_per_btc
             else if POSITION_SIZING_METHOD cfg = ''kelly''
               then kelly_sizing cfg balance entry_price risk_per_btc signal_strength
             else fixed_percent_sizing cfg balance entry_price risk_per_btc))"

text \<open>The texts that the gates return or print, each with the numbers it formats.\<close>

datatype message =
    Position_risk_exceeds real real
  | Daily_loss_limit_reached real
  | Maximum_positions_reached int
  | Position_size_valid
  | Daily_loss_limit_hit real
  | Daily_limits_OK
  | Trading_disabled
  | Emergency_stop_active
  | Position_rejected message

definition check_risk_limits :: "config \<Rightarrow> data_collector \<Rightarrow> position_size \<Rightarrow> py_error + (bool \<times> message)" where
  "check_risk_limits cfg dc ps =
     (let balance = account_balance dc;
          max_risk = balance * (MAX_ACCOUNT_RISK_PERCENT cfg / 100) in
      if risk_usdt ps > max_risk then Inr (False, Position_risk_exceeds (risk_usdt ps) max_risk)
      else
        (case (if daily_pnl dc < 0
               then (case py_truediv \<bar>daily_pnl dc\<bar> balance of
                       Inl e \<Rightarrow> Inl e
                     | Inr q \<Rightarrow>
                         (let daily_loss_percent = q * 100 in
                          if daily_loss_percent \<ge> MAX_DAILY_LOSS_PERCENT cfg
                          then Inr (Some (Daily_loss_limit_reached daily_loss_percent))
                          else Inr None))
               else Inr None) of
           Inl e \<Rightarrow> Inl e
         | Inr (Some m) \<Rightarrow> Inr (False, m)
         | Inr None \<Rightarrow>
             if int (length (open_positions dc)) \<ge> MAX_POSITIONS cfg
             then Inr (False, Maximum_positions_reached (MAX_POSITIONS cfg))
             else Inr (True, Position_size_valid)))"

section \<open>Signal (enhanced_strategy.py)\<close>

text \<open>
  The signal dictionary of the strategy, which the executor consumes. Its \<open>timestamp\<close>
  and its \<open>components\<close> (the raw sub-results, kept for display) are left out: no
  modelled function reads them. A reason is one formatted line of text; the datatype
  keeps the kind of line and the values it formats.
\<close>

datatype reason =
    Market_not_tradeable "string list"
  | MA_description string
  | Price_at_major_support real
  | Price_at_major_resistance real
  | Divergence_description string
  | Orderflow_reason string
  | Rejection string

record signal =
  bias :: string
  strength :: int
  reasons :: "reason list"
  action :: string
  entry_price :: real
  stop_loss :: real
  take_profit :: real

section \<open>Risk manager (risk_manager.py)\<close>

record risk_manager =
  active_stops :: "string \<rightharpoonup> real"
  daily_reset_time :: int

text \<open>\<open>timedelta(days=1)\<close>, in microseconds.\<close>

definition one_day :: int where
  "one_day = 86400000000"

text \<open>
  \<open>dt.replace(hour=0, minute=0, second=0)\<close> keeps the date and the microsecond of
  \<open>dt\<close>.
\<close>

definition replace_hms0 :: "int \<Rightarrow> int" where
  "replace_hms0 t = t - (t mod 86400000000) + (t mod 1000000)"

text \<open>The key of a position in \<open>active_stops\<close>: \<open>symbol + '_' + positionSide\<close>.\<close>

definition position_id_of :: "position \<Rightarrow> string" where
  "position_id_of pos = symbol pos @ ''_'' @ positionSide pos"

definition update_trailing_stop ::
  "config \<Rightarrow> risk_manager \<Rightarrow> position \<Rightarrow> real \<Rightarrow> real \<Rightarrow> risk_manager" where
  "update_trailing_stop cfg rm pos price_now unrealized_pnl =
     (let position_id = symbol pos @ ''_'' @ positionSide pos;
          position_amt = positionAmt pos;
          is_long = (position_amt > 0) in
      if unrealized_pnl \<le> 0 then rm
      else if is_long then
        (let new_stop = price_now * (1 - TRAILING_STOP_PERCENT cfg / 100) in
         if (case active_stops rm position_id of None \<Rightarrow> True | Some s \<Rightarrow> new_stop > s)
         then rm\<lparr>active_stops := (active_stops rm)(position_id \<mapsto> new_stop)\<rparr>
         else rm)
      else
        (let new_stop = price_now * (1 + TRAILING_STOP_PERCENT cfg / 100) in
         if (case active_stops rm position_id of None \<Rightarrow> True | Some s \<Rightarrow> new_stop < s)
         then rm\<lparr>active_stops := (active_stops rm)(position_id \<mapsto> new_stop)\<rparr>
         else rm))"

text \<open>
  The loop of \<open>monitor_positions\<close> over the open positions: the trailing-stop update,
  then the PnL percentage for the log line, whose division raises on a position of zero
  entry price or amount.
\<close>

fun monitor_loop ::
  "config \<Rightarrow> real \<Rightarrow> position list \<Rightarrow> risk_manager \<Rightarrow> py_error + risk_manager" where
  "monitor_loop cfg price_now [] rm = Inr rm"
| "monitor_loop cfg price_now (pos # rest) rm =
     (let unrealized_pnl = unRealizedProfit pos;
          rm1 = (if TRAILING_STOP_ENABLED cfg
                 then update_trailing_stop cfg rm pos price_now unrealized_pnl else rm) in
      case py_truediv unrealized_pnl (entryPrice pos * \<bar>positionAmt pos\<bar>) of
        Inl e \<Rightarrow> Inl e
      | Inr pnl_fraction \<Rightarrow> monitor_loop cfg price_now rest rm1)"

definition monitor_positions :: "config \<Rightarrow> data_collector \<Rightarrow> risk_manager \<Rightarrow> py_error + risk_manager" where
  "monitor_positions cfg dc rm = monitor_loop cfg (current_price dc) (open_positions dc) rm"

text \<open>
  A run of successive calls of \<open>update_trailing_stop\<close>, each with its position, the
  price and the unrealized PnL of its moment.
\<close>

fun trailing_stop_calls ::
  "config \<Rightarrow> risk_manager \<Rightarrow> (position \<times> real \<times> real) list \<Rightarrow> risk_manager" where
  "trailing_stop_calls cfg rm [] = rm"
| "trailing_stop_calls cfg rm ((pos, price_now, pnl) # calls) =
     trailing_stop_calls cfg (update_trailing_stop cfg rm pos price_now pnl) calls"

text \<open>
  \<open>check_daily_limits\<close> reads the clock twice: \<open>now1\<close> in the comparison, \<open>now2\<close>
  when it stores the new reset time.
\<close>

definition check_daily_limits ::
  "config \<Rightarrow> int \<Rightarrow> int \<Rightarrow> data_collector \<Rightarrow> risk_manager
     \<Rightarrow> py_error + ((bool \<times> message) \<times> data_collector \<times> risk_manager)" where
  "check_daily_limits cfg now1 now2 dc rm =
     (let (dc1, rm1) =
            (if now1 > daily_reset_time rm + one_day
             then (dc\<lparr>daily_pnl := 0, daily_trades := 0\<rparr>,
                   rm\<lparr>daily_reset_time := replace_hms0 now2\<rparr>)
             else (dc, rm)) in
      if daily_pnl dc1 < 0 then
        (case py_truediv \<bar>daily_pnl dc1\<bar> (account_balance dc1) of
           Inl e \<Rightarrow> Inl e
         | Inr q \<Rightarrow>
             (let loss_percent = q * 100 in
              if loss_percent \<ge> MAX_DAILY_LOSS_PERCENT cfg
              then Inr ((False, Daily_loss_limit_hit loss_percent), dc1, rm1)
              else Inr ((True, Daily_limits_OK), dc1, rm1)))
      else Inr ((True, Daily_limits_OK), dc1, rm1))"

section \<open>Order executor (order_executor.py)\<close>

text \<open>
  \<open>execute_signal\<close> either stops at a gate, printing the gate's message, or awaits
  \<open>_place_market_order(signal, position_size)\<close>, the call that talks to the exchange
  client. The outcome records which of the two happened; the exchange calls themselves
  are outside the model.
\<close>

datatype outcome =
    Stopped message
  | Order_handed_off signal position_size

definition execute_signal ::
  "config \<Rightarrow> int \<Rightarrow> int \<Rightarrow> data_collector \<Rightarrow> risk_manager \<Rightarrow> signal
     \<Rightarrow> py_error + (outcome \<times> data_collector \<times> risk_manager)" where
  "execute_signal cfg now1 now2 dc rm sg =
     (if \<not> ENABLE_TRADING cfg then Inr (Stopped Trading_disabled, dc, rm)
      else if EMERGENCY_STOP cfg then Inr (Stopped Emergency_stop_active, dc, rm)
      else
        (case check_daily_limits cfg now1 now2 dc rm of
           Inl e \<Rightarrow> Inl e
         | Inr ((can_trade, why), dc1, rm1) \<Rightarrow>
             if \<not> can_trade then Inr (Stopped why, dc1, rm1)
             else
               (case calculate_position_size cfg dc1 (entry_price sg) (stop_loss sg) (strength sg) of
                  Inl e \<Rightarrow> Inl e
                | Inr ps \<Rightarrow>
                    (case check_risk_limits cfg dc1 ps of
                       Inl e \<Rightarrow> Inl e
                     | Inr (is_valid, validation_msg) \<Rightarrow>
                         if \<not> is_valid
                         then Inr (Stopped (Position_rejected validation_msg), dc1, rm1)
                         else Inr (Order_handed_off sg ps, dc1, rm1)))))"

section \<open>Volume profile (volume_profile.py)\<close>

text \<open>
  The profile is a Python dictionary from bin price to volume. A dictionary iterates in
  insertion order and \<open>max(d, key=d.get)\<close> depends on that order, so the model is an
  association list in insertion order: storing under a key that is present replaces its
  value in place, storing under a new key appends.
\<close>

type_synonym pydict = "(real \<times> real) list"

fun dict_set :: "real \<Rightarrow> real \<Rightarrow> pydict \<Rightarrow> pydict" where
  "dict_set k v [] = [(k, v)]"
| "dict_set k v (kv # d) = (if fst kv = k then (k, v) # d else kv # dict_set k v d)"

fun dict_get :: "pydict \<Rightarrow> real \<Rightarrow> py_error + real" where
  "dict_get [] k = Inl KeyError"
| "dict_get (kv # d) k = (if fst kv = k then Inr (snd kv) else dict_get d k)"

definition dict_keys :: "pydict \<Rightarrow> real list" where
  "dict_keys d = map fst d"

definition dict_values :: "pydict \<Rightarrow> real list" where
  "dict_values d = map snd d"

record volume_profile =
  profile :: pydict
  poc :: real
  value_area_high :: real
  value_area_low :: real

text \<open>The state that \<open>__init__\<close> sets up.\<close>

definition volume_profile_init :: volume_profile where
  "volume_profile_init = \<lparr> profile = [], poc = 0, value_area_high = 0, value_area_low = 0 \<rparr>"

text \<open>The loop of \<open>build_profile\<close> that adds each trade's quantity to its price bin.\<close>

fun bin_trades :: "real \<Rightarrow> real \<Rightarrow> trade list \<Rightarrow> pydict \<Rightarrow> py_error + pydict" where
  "bin_trades min_price bin_size [] volume_by_price = Inr volume_by_price"
| "bin_trades min_price bin_size (t # ts) volume_by_price =
     (case py_truediv (price t - min_price) bin_size of
        Inl e \<Rightarrow> Inl e
      | Inr x \<Rightarrow>
          (let bin_index = py_int x;
               bin_price = min_price + (real_of_int bin_index * bin_size);
               d1 = (if bin_price \<notin> set (dict_keys volume_by_price)
                     then dict_set bin_price 0 volume_by_price else volume_by_price) in
           case dict_get d1 bin_price of
             Inl e \<Rightarrow> Inl e
           | Inr v \<Rightarrow> bin_trades min_price bin_size ts (dict_set bin_price (v + quantity t) d1)))"

text \<open>
  \<open>max(d, key=d.get)\<close> walks the keys in the dictionary's order and keeps the key seen
  so far with the greatest value, replacing it only by a strictly greater one;
  \<open>d.get(k)\<close> is the value that the item of \<open>k\<close> holds.
\<close>

fun max_by_value :: "real \<times> real \<Rightarrow> pydict \<Rightarrow> real \<times> real" where
  "max_by_value best [] = best"
| "max_by_value best (kv # d) = max_by_value (if snd kv > snd best then kv else best) d"

fun list_index :: "real list \<Rightarrow> real \<Rightarrow> py_error + nat" where
  "list_index [] x = Inl ValueError"
| "list_index (y # ys) x =
     (if y = x then Inr 0
      else (case list_index ys x of Inl e \<Rightarrow> Inl e | Inr i \<Rightarrow> Inr (Suc i)))"

text \<open>
  One pass through the body of the \<open>while\<close> loop of \<open>_calculate_value_area\<close>, on the
  loop state \<open>(va_volume, low_index, high_index)\<close>: the new state, or \<open>None\<close> for
  \<open>break\<close>. Both indices stay inside \<open>sorted_prices\<close>: \<open>low_index - 1\<close> is read only
  when \<open>low_index > 0\<close> and \<open>high_index + 1\<close> only below the last index.
\<close>

definition va_step :: "pydict \<Rightarrow> real list \<Rightarrow> real \<times> nat \<times> nat \<Rightarrow> py_error + (real \<times> nat \<times> nat) option" where
  "va_step prof sorted_prices st =
     (case st of (va_volume, low_index, high_index) \<Rightarrow>
      (case (if low_index > 0 then dict_get prof (sorted_prices ! (low_index - 1)) else Inr 0) of
         Inl e \<Rightarrow> Inl e
       | Inr low_vol \<Rightarrow>
           (case (if high_index < length sorted_prices - 1
                  then dict_get prof (sorted_prices ! (high_index + 1)) else Inr 0) of
              Inl e \<Rightarrow> Inl e
            | Inr high_vol \<Rightarrow>
                if low_vol > high_vol \<and> low_index > 0
                  then Inr (Some (va_volume + low_vol, low_index - 1, high_index))
                else if high_index < length sorted_prices - 1
                  then Inr (Some (va_volume + high_vol, low_index, high_index + 1))
                else Inr None)))"

function va_loop :: "pydict \<Rightarrow> real list \<Rightarrow> real \<Rightarrow> real \<times> nat \<times> nat \<Rightarrow> py_error + (real \<times> nat \<times> nat)" where
  "va_loop prof sorted_prices target_volume st =
     (if fst st < target_volume then
        (case va_step prof sorted_prices st of
           Inl e \<Rightarrow> Inl e
         | Inr None \<Rightarrow> Inr st
         | Inr (Some st') \<Rightarrow> va_loop prof sorted_prices target_volume st')
      else Inr st)"
  by pat_completeness auto
termination
proof (relation "measure (\<lambda>(prof, sp, target, va, lo, hi). lo + (length sp - hi))")
  show "wf (measure (\<lambda>(prof, sp, target, va, lo, hi). lo + (length sp - hi)))"
    by simp
next
  fix prof :: pydict and sorted_prices :: "real list" and target_volume :: real
    and st st' :: "real \<times> nat \<times> nat" and x2 :: "(real \<times> nat \<times> nat) option"
  assume "va_step prof sorted_prices st = Inr x2" and "x2 = Some st'"
  then show "((prof, sorted_prices, target_volume, st'), (prof, sorted_prices, target_volume, st))
             \<in> measure (\<lambda>(prof, sp, target, va, lo, hi). lo + (length sp - hi))"
    by (cases st; cases st') (auto simp: va_step_def split: if_splits sum.splits)
qed

declare va_loop.simps [simp del]

definition calculate_value_area :: "config \<Rightarrow> volume_profile \<Rightarrow> py_error + volume_profile" where
  "calculate_value_area cfg vp =
     (if profile vp = [] then Inr vp
      else
        (let total_volume = sum_list (dict_values (profile vp));
             target_volume = total_volume * (VP_VALUE_AREA_PERCENT cfg / 100);
             sorted_prices = sort (dict_keys (profile vp)) in
         case list_index sorted_prices (poc vp) of
           Inl e \<Rightarrow> Inl e
         | Inr poc_index \<Rightarrow>
             (case dict_get (profile vp) (poc vp) of
                Inl e \<Rightarrow> Inl e
              | Inr va_volume \<Rightarrow>
                  (case va_loop (profile vp) sorted_prices target_volume
                          (va_volume, poc_index, poc_index) of
                     Inl e \<Rightarrow> Inl e
                   | Inr (va_final, low_index, high_index) \<Rightarrow>
                       Inr (vp\<lparr> value_area_low := sorted_prices ! low_index,
                                value_area_high := sorted_prices ! high_index \<rparr>)))))"

text \<open>The dictionary that \<open>build_profile\<close> returns; \<open>None\<close> below stands for \<open>{}\<close>.\<close>

record profile_result =
  res_profile :: pydict
  res_poc :: real
  res_value_area_high :: real
  res_value_area_low :: real
  res_total_volume :: real

definition recent_trades_of :: "data_collector \<Rightarrow> int \<Rightarrow> int \<Rightarrow> trade list" where
  "recent_trades_of dc now lookback_hours =
     (let cutoff_time = now - lookback_hours * 3600000000 in
      filter (\<lambda>t. timestamp t > cutoff_time) (trades dc))"

definition build_profile ::
  "config \<Rightarrow> data_collector \<Rightarrow> int \<Rightarrow> volume_profile \<Rightarrow> int
     \<Rightarrow> py_error + (profile_result option \<times> volume_profile)" where
  "build_profile cfg dc now vp lookback_hours =
     (let recent_trades = recent_trades_of dc now lookback_hours in
      case recent_trades of
        [] \<Rightarrow> Inr (None, vp)
      | t0 # ts0 \<Rightarrow>
          (let prices = map price recent_trades;
               min_price = foldl min (price t0) (map price ts0);
               max_price = foldl max (price t0) (map price ts0) in
           case py_truediv (max_price - min_price) (real_of_int (VP_PRICE_BINS cfg)) of
             Inl e \<Rightarrow> Inl e
           | Inr bin_size \<Rightarrow>
               (case bin_trades min_price bin_size recent_trades [] of
                  Inl e \<Rightarrow> Inl e
                | Inr volume_by_price \<Rightarrow>
                    (let vp1 = vp\<lparr> profile := volume_by_price \<rparr>;
                         vp2 = (case volume_by_price of
                                  [] \<Rightarrow> vp1
                                | kv # d \<Rightarrow> vp1\<lparr> poc := fst (max_by_value kv d) \<rparr>) in
                     case calculate_value_area cfg vp2 of
                       Inl e \<Rightarrow> Inl e
                     | Inr vp3 \<Rightarrow>
                         Inr (Some \<lparr> res_profile = profile vp3,
                                     res_poc = poc vp3,
                                     res_value_area_high = value_area_high vp3,
                                     res_value_area_low = value_area_low vp3,
                                     res_total_volume = sum_list (dict_values volume_by_price) \<rparr>,
                              vp3)))))"

text \<open>
  The volume of a price band: the sum of the volumes of the bins whose price lies in
  \<open>[lo, hi]\<close>.
\<close>

definition band_volume :: "pydict \<Rightarrow> real \<Rightarrow> real \<Rightarrow> real" where
  "band_volume prof lo hi = sum_list (map snd (filter (\<lambda>kv. lo \<le> fst kv \<and> fst kv \<le> hi) prof))"

text \<open>
  The volume stored under a key, zero for a key that is absent; it names the volume of a
  bin in the statements below.
\<close>

definition volume_at :: "pydict \<Rightarrow> real \<Rightarrow> real" where
  "volume_at prof k = (case dict_get prof k of Inl e \<Rightarrow> 0 | Inr v \<Rightarrow> v)"

section \<open>Market condition gate (market_conditions.py)\<close>

text \<open>
  The two fields of the analyzer that the gate reads. \<open>analyze_conditions\<close> writes them
  at the start of every analysis cycle, from candles and a ticker call that are outside
  the model; the strategy below takes the analyzer as it is after that call.
\<close>

record market_conditions =
  current_regime :: string
  volatility_state :: string

definition should_trade_in_current_conditions ::
  "config \<Rightarrow> market_conditions \<Rightarrow> string \<Rightarrow> bool \<times> string" where
  "should_trade_in_current_conditions cfg mc signal_bias =
     (if current_regime mc = ''ranging''
        then (False, ''Market is ranging - avoid directional trades'')
      else if REQUIRE_TREND_CONFIRMATION cfg \<and> signal_bias = ''bullish''
              \<and> current_regime mc = ''trending_down''
        then (False, ''Bullish signal against downtrend'')
      else if REQUIRE_TREND_CONFIRMATION cfg \<and> signal_bias = ''bearish''
              \<and> current_regime mc = ''trending_up''
        then (False, ''Bearish signal against uptrend'')
      else if volatility_state mc = ''extreme''
        then (False, ''Volatility too high - risk of whipsaw'')
      else (True, ''Market conditions favorable''))"

section \<open>Strategy (enhanced_strategy.py)\<close>

text \<open>
  \<open>analyze_market\<close> calls its collaborators in a fixed order and folds what they return
  into the signal. The model takes what each collaborator returned in the cycle as an
  argument: the conditions dictionary, the moving-average sub-signal, the support and
  resistance levels, the divergence dictionary (which has no \<open>description\<close> key when its
  type is \<open>none\<close>) and the order-flow sub-signal. A cycle in which a collaborator
  raises returns no signal at all, so it is not a case of the model.
\<close>

record conditions =
  is_tradeable :: bool
  warnings :: "string list"

record ma_result =
  ma_signal :: string
  ma_strength :: int
  ma_description :: string

record sr_levels =
  support :: "real list"
  resistance :: "real list"

record divergence =
  div_type :: string
  div_strength :: int
  div_description :: "string option"

record orderflow =
  of_bias :: string
  of_strength :: int
  of_reasons :: "string list"

definition initial_signal :: signal where
  "initial_signal = \<lparr> bias = ''neutral'', strength = 0, reasons = [], action = ''wait'',
                       entry_price = 0, stop_loss = 0, take_profit = 0 \<rparr>"

text \<open>Step 2, the moving averages.\<close>

definition step_moving_averages :: "ma_result \<Rightarrow> signal \<Rightarrow> signal" where
  "step_moving_averages ma sg =
     (if ma_signal ma \<noteq> ''none''
      then sg\<lparr> strength := strength sg + ma_strength ma,
               reasons := reasons sg @ [MA_description (ma_description ma)],
               bias := (if bias sg = ''neutral'' then ma_signal ma else bias sg) \<rparr>
      else sg)"

text \<open>
  Step 3, the volume levels. The test \<open>levels and abs(price - levels[0]) / price < 0.005\<close>
  divides only when the list is not empty.
\<close>

definition step_level ::
  "real \<Rightarrow> real list \<Rightarrow> (real \<Rightarrow> reason) \<Rightarrow> string \<Rightarrow> signal \<Rightarrow> py_error + signal" where
  "step_level price_now levels describe lean sg =
     (case levels of
        [] \<Rightarrow> Inr sg
      | level # others \<Rightarrow>
          (case py_truediv \<bar>price_now - level\<bar> price_now of
             Inl e \<Rightarrow> Inl e
           | Inr distance \<Rightarrow>
               if distance < 5 / 1000
               then Inr (sg\<lparr> strength := strength sg + 15,
                             reasons := reasons sg @ [describe level],
                             bias := (if bias sg = ''neutral'' then lean else bias sg) \<rparr>)
               else Inr sg))"

text \<open>Step 4, the delta divergence; \<open>//\<close> is the floor division of ints.\<close>

definition step_divergence :: "divergence \<Rightarrow> signal \<Rightarrow> py_error + signal" where
  "step_divergence dv sg =
     (if div_type dv \<noteq> ''none''
      then (case div_description dv of
              None \<Rightarrow> Inl KeyError
            | Some text \<Rightarrow>
                Inr (sg\<lparr> strength := strength sg + div_strength dv div 2,
                          reasons := reasons sg @ [Divergence_description text],
                          bias := (if bias sg = ''neutral'' then div_type dv else bias sg) \<rparr>))
      else Inr sg)"

text \<open>Step 5, the order flow.\<close>

definition step_orderflow :: "orderflow \<Rightarrow> signal \<Rightarrow> signal" where
  "step_orderflow ofl sg =
     sg\<lparr> strength := strength sg + of_strength ofl,
          reasons := reasons sg @ map Orderflow_reason (of_reasons ofl),
          bias := (if bias sg = ''neutral'' \<and> of_bias ofl \<noteq> ''neutral''
                   then of_bias ofl else bias sg) \<rparr>"

text \<open>Steps 2 to 5 in the order of the source.\<close>

definition accumulate_signal ::
  "real \<Rightarrow> ma_result \<Rightarrow> sr_levels \<Rightarrow> divergence \<Rightarrow> orderflow \<Rightarrow> py_error + signal" where
  "accumulate_signal price_now ma sr dv ofl =
     (let sg2 = step_moving_averages ma initial_signal in
      case step_level price_now (support sr) Price_at_major_support ''bullish'' sg2 of
        Inl e \<Rightarrow> Inl e
      | Inr sg3a \<Rightarrow>
          (case step_level price_now (resistance sr) Price_at_major_resistance ''bearish'' sg3a of
             Inl e \<Rightarrow> Inl e
           | Inr sg3b \<Rightarrow>
               (case step_divergence dv sg3b of
                  Inl e \<Rightarrow> Inl e
                | Inr sg4 \<Rightarrow> Inr (step_orderflow ofl sg4))))"

text \<open>Step 6, the final decision, on the signal that steps 2 to 5 have built.\<close>

definition final_decision :: "config \<Rightarrow> market_conditions \<Rightarrow> real \<Rightarrow> signal \<Rightarrow> signal" where
  "final_decision cfg mc price_now sg =
     (if strength sg \<ge> MIN_SIGNAL_STRENGTH cfg then
        (case should_trade_in_current_conditions cfg mc (bias sg) of
           (should_trade, why) \<Rightarrow>
             if should_trade then
               (let sg1 = (if bias sg = ''bullish'' then sg\<lparr> action := ''buy'' \<rparr>
                           else if bias sg = ''bearish'' then sg\<lparr> action := ''sell'' \<rparr>
                           else sg);
                    sg2 = sg1\<lparr> entry_price := price_now \<rparr> in
                if action sg2 = ''buy''
                then sg2\<lparr> stop_loss := price_now * (1 - STOP_LOSS_PERCENT cfg / 100),
                          take_profit := price_now * (1 + TAKE_PROFIT_PERCENT cfg / 100) \<rparr>
                else sg2\<lparr> stop_loss := price_now * (1 + STOP_LOSS_PERCENT cfg / 100),
                          take_profit := price_now * (1 - TAKE_PROFIT_PERCENT cfg / 100) \<rparr>)
             else sg\<lparr> reasons := reasons sg @ [Rejection why] \<rparr>)
      else sg)"

definition analyze_market ::
  "config \<Rightarrow> market_conditions \<Rightarrow> conditions \<Rightarrow> real \<Rightarrow> ma_result \<Rightarrow> sr_levels
     \<Rightarrow> divergence \<Rightarrow> orderflow \<Rightarrow> py_error + signal" where
  "analyze_market cfg mc conds price_now ma sr dv ofl =
     (if \<not> is_tradeable conds
      then Inr (initial_signal\<lparr> reasons := [Market_not_tradeable (warnings conds)] \<rparr>)
      else
        (case accumulate_signal price_now ma sr dv ofl of
           Inl e \<Rightarrow> Inl e
         | Inr sg \<Rightarrow> Inr (final_decision cfg mc price_now sg)))"

section \<open>Concrete inputs\<close>

text \<open>An account of 1000 USDT with no open position and no loss today.\<close>

definition funded_account :: data_collector where
  "funded_account = \<lparr> trades = [], current_price = 50000, account_balance = 1000,
                       open_positions = [], daily_pnl = 0, daily_trades = 0 \<rparr>"

text \<open>A signal to buy, a risk manager that tracks no stop yet, and a long position
  with a tracked stop and three successive updates of it.\<close>

definition bullish_signal :: signal where
  "bullish_signal = \<lparr> bias = ''bullish'', strength = 65, reasons = [], action = ''buy'',
                       entry_price = 50000, stop_loss = 49000, take_profit = 52000 \<rparr>"

definition fresh_risk_manager :: risk_manager where
  "fresh_risk_manager = \<lparr> active_stops = Map.empty, daily_reset_time = 0 \<rparr>"

definition long_position :: position where
  "long_position = \<lparr> symbol = ''BTCUSDT'', positionSide = ''LONG'', entryPrice = 50000,
                      positionAmt = 1 / 100, unRealizedProfit = 5 \<rparr>"

definition tracking_risk_manager :: risk_manager where
  "tracking_risk_manager = \<lparr> active_stops = [''BTCUSDT_LONG'' \<mapsto> 49000], daily_reset_time = 0 \<rparr>"

definition rising_calls :: "(position \<times> real \<times> real) list" where
  "rising_calls = [(long_position, 50000, 5), (long_position, 49500, 2), (long_position, 51000, 10)]"

text \<open>An analysis cycle in an uptrend: what the collaborators may return.\<close>

definition trending_up_market :: market_conditions where
  "trending_up_market = \<lparr> current_regime = ''trending_up'', volatility_state = ''normal'' \<rparr>"

definition tradeable_conditions :: conditions where
  "tradeable_conditions = \<lparr> is_tradeable = True, warnings = [] \<rparr>"

definition aligned_ma :: ma_result where
  "aligned_ma = \<lparr> ma_signal = ''bullish'', ma_strength = 40,
                   ma_description = ''All EMAs aligned bullish'' \<rparr>"

definition strong_ma :: ma_result where
  "strong_ma = \<lparr> ma_signal = ''bullish'', ma_strength = 50,
                  ma_description = ''All EMAs aligned bullish'' \<rparr>"

definition no_levels :: sr_levels where
  "no_levels = \<lparr> support = [], resistance = [] \<rparr>"

definition near_support :: sr_levels where
  "near_support = \<lparr> support = [49900], resistance = [] \<rparr>"

definition no_divergence :: divergence where
  "no_divergence = \<lparr> div_type = ''none'', div_strength = 0, div_description = None \<rparr>"

definition quiet_orderflow :: orderflow where
  "quiet_orderflow = \<lparr> of_bias = ''neutral'', of_strength = 0, of_reasons = [] \<rparr>"

text \<open>
  A window of two trades of equal quantity, the higher-priced one first, and two small
  profiles whose POC, in the middle, has neighbours of equal volume.
\<close>

definition late_trade :: trade where
  "late_trade = \<lparr> timestamp = 99999000000, price = 200, quantity = 1,
                    is_buyer_maker = False, trade_id = 1 \<rparr>"

definition later_trade :: trade where
  "later_trade = \<lparr> timestamp = 99999500000, price = 100, quantity = 1,
                     is_buyer_maker = True, trade_id = 2 \<rparr>"

definition two_trade_market :: data_collector where
  "two_trade_market = \<lparr> trades = [late_trade, later_trade], current_price = 100,
                          account_balance = 1000, open_positions = [], daily_pnl = 0,
                          daily_trades = 0 \<rparr>"

definition tied_profile :: pydict where
  "tied_profile = [(1, 3), (2, 5), (3, 3)]"

definition centred_profile :: volume_profile where
  "centred_profile = \<lparr> profile = [(1, 3), (2, 5), (3, 3)], poc = 2,
                         value_area_high = 0, value_area_low = 0 \<rparr>"

section \<open>Properties of position sizing\<close>

text \<open>
  C9. Whatever the entry and stop prices, the sizing method and the signal strength, a
  zero or negative account balance makes \<open>calculate_position_size\<close> return (and not
  raise) the result tagged \<open>no_balance\<close> whose quantity, notional and risk are all zero.
\<close>

theorem calculate_position_size_no_balance:
  assumes "account_balance dc \<le> 0"
  shows "\<exists>r. calculate_position_size cfg dc entry stop signal_strength = Inr r
             \<and> method_tag r = ''no_balance''
             \<and> quantity_btc r = 0 \<and> notional_usdt r = 0 \<and> risk_usdt r = 0"
  using assms by (simp add: calculate_position_size_def no_balance_def)

theorem calculate_position_size_no_balance_witness:
  "account_balance \<lparr> trades = [], current_price = 0, account_balance = 0,
                     open_positions = [], daily_pnl = 0, daily_trades = 0 \<rparr> \<le> 0
   \<and> (\<exists>r. calculate_position_size default_config
             \<lparr> trades = [], current_price = 0, account_balance = 0,
               open_positions = [], daily_pnl = 0, daily_trades = 0 \<rparr> 0 0 50 = Inr r
          \<and> method_tag r = ''no_balance''
          \<and> quantity_btc r = 0 \<and> notional_usdt r = 0 \<and> risk_usdt r = 0)"
  using calculate_position_size_no_balance
    [of "\<lparr> trades = [], current_price = 0, account_balance = 0,
           open_positions = [], daily_pnl = 0, daily_trades = 0 \<rparr>" default_config 0 0 50]
  by simp

text \<open>
  C10. With a positive balance \<open>calculate_position_size\<close> is partial. An entry price of
  zero raises \<open>ZeroDivisionError\<close> (the risk percent divides by it) under every sizing
  method. An entry price equal to the stop price makes the risk per unit zero, and the
  call raises under every method but \<open>fixed_dollar\<close>, that is on the fixed-percent path
  (also taken for an unknown method name) and on the Kelly path; under \<open>fixed_dollar\<close>
  with a non-zero entry it returns.
\<close>

theorem calculate_position_size_raises:
  assumes "0 < account_balance dc"
  shows "(entry = 0 \<longrightarrow>
            calculate_position_size cfg dc entry stop s = Inl ZeroDivisionError)
       \<and> (entry = stop \<and> POSITION_SIZING_METHOD cfg \<noteq> ''fixed_dollar'' \<longrightarrow>
            calculate_position_size cfg dc entry stop s = Inl ZeroDivisionError)
       \<and> (entry = stop \<and> entry \<noteq> 0 \<and> POSITION_SIZING_METHOD cfg = ''fixed_dollar'' \<longrightarrow>
            (\<exists>r. calculate_position_size cfg dc entry stop s = Inr r))"
  using assms
  by (auto simp: calculate_position_size_def py_truediv_def fixed_percent_sizing_def
        fixed_dollar_sizing_def kelly_sizing_def Let_def)

theorem calculate_position_size_raises_witness:
  "0 < account_balance funded_account
   \<and> calculate_position_size default_config funded_account 0 49000 50 = Inl ZeroDivisionError
   \<and> calculate_position_size default_config funded_account 50000 50000 50 = Inl ZeroDivisionError"
proof -
  have pos: "0 < account_balance funded_account"
    by (simp add: funded_account_def)
  have m: "POSITION_SIZING_METHOD default_config \<noteq> ''fixed_dollar''"
    by (simp add: default_config_def)
  from calculate_position_size_raises [OF pos, where entry = 0 and cfg = default_config and stop = 49000 and s = 50]
       calculate_position_size_raises [OF pos, where entry = 50000 and cfg = default_config and stop = 50000 and s = 50] pos m
  show ?thesis by simp
qed

text \<open>
  C4. With a positive balance and entry different from stop, fixed-percent sizing returns
  a quantity whose loss at the stop, quantity times \<open>|entry - stop|\<close>, is exactly
  \<open>RISK_PER_TRADE_PERCENT\<close> percent of the balance. This holds of
  \<open>_fixed_percent_sizing\<close> itself, and of every result that \<open>calculate_position_size\<close>
  returns with the tag \<open>fixed_percent\<close>; it returns one whenever the entry price is not
  zero and the configured method is neither \<open>fixed_dollar\<close> nor \<open>kelly\<close>.
\<close>

theorem fixed_percent_risk_identity:
  assumes "0 < account_balance dc" and "entry \<noteq> stop"
  shows "(\<exists>r. fixed_percent_sizing cfg (account_balance dc) entry \<bar>entry - stop\<bar> = Inr r
              \<and> quantity_btc r * \<bar>entry - stop\<bar>
                  = account_balance dc * (RISK_PER_TRADE_PERCENT cfg / 100))
       \<and> (\<forall>r. calculate_position_size cfg dc entry stop s = Inr r
              \<and> method_tag r = ''fixed_percent''
            \<longrightarrow> quantity_btc r * \<bar>entry - stop\<bar>
                  = account_balance dc * (RISK_PER_TRADE_PERCENT cfg / 100))
       \<and> (entry \<noteq> 0 \<and> POSITION_SIZING_METHOD cfg \<noteq> ''fixed_dollar''
              \<and> POSITION_SIZING_METHOD cfg \<noteq> ''kelly''
            \<longrightarrow> (\<exists>r. calculate_position_size cfg dc entry stop s = Inr r
                     \<and> method_tag r = ''fixed_percent''))"
  using assms
  by (auto simp: calculate_position_size_def py_truediv_def fixed_percent_sizing_def
        fixed_dollar_sizing_def kelly_sizing_def Let_def split: if_splits)

theorem fixed_percent_risk_identity_witness:
  "0 < account_balance funded_account \<and> (50000::real) \<noteq> 49000
   \<and> (\<exists>r. calculate_position_size default_config funded_account 50000 49000 50 = Inr r
          \<and> method_tag r = ''fixed_percent''
          \<and> quantity_btc r * \<bar>50000 - 49000\<bar> = 10)"
proof -
  have pos: "0 < account_balance funded_account"
    by (simp add: funded_account_def)
  have ne: "(50000::real) \<noteq> 49000" by simp
  have bal: "account_balance funded_account * (RISK_PER_TRADE_PERCENT default_config / 100) = 10"
    by (simp add: funded_account_def default_config_def)
  have m: "POSITION_SIZING_METHOD default_config \<noteq> ''fixed_dollar''"
          "POSITION_SIZING_METHOD default_config \<noteq> ''kelly''"
    by (simp_all add: default_config_def)
  from fixed_percent_risk_identity [OF pos ne, where cfg = default_config and s = 50] m bal pos
  show ?thesis by fastforce
qed

section \<open>Properties of the order executor\<close>

text \<open>
  C1. \<open>execute_signal\<close> hands a signal and its sized position to
  \<open>_place_market_order\<close> exactly when the four gates pass in sequence: \<open>ENABLE_TRADING\<close>
  is true, \<open>EMERGENCY_STOP\<close> is false, \<open>check_daily_limits\<close> returns OK, and
  \<open>check_risk_limits\<close> accepts the position size computed on the state the daily check
  left. A gate that fails stops the call there, with the gate's message and without a
  hand-off: the two switches before any state is touched, the daily limits with the
  state the daily check left, the risk limits likewise.
\<close>

theorem execute_signal_gates:
  "(execute_signal cfg now1 now2 dc rm sg = Inr (Order_handed_off sg' ps, dc', rm')
    \<longleftrightarrow> (ENABLE_TRADING cfg \<and> \<not> EMERGENCY_STOP cfg
         \<and> (\<exists>why. check_daily_limits cfg now1 now2 dc rm = Inr ((True, why), dc', rm'))
         \<and> calculate_position_size cfg dc' (entry_price sg) (stop_loss sg) (strength sg) = Inr ps
         \<and> (\<exists>msg. check_risk_limits cfg dc' ps = Inr (True, msg))
         \<and> sg' = sg))
   \<and> (\<not> ENABLE_TRADING cfg \<longrightarrow>
         execute_signal cfg now1 now2 dc rm sg = Inr (Stopped Trading_disabled, dc, rm))
   \<and> (ENABLE_TRADING cfg \<and> EMERGENCY_STOP cfg \<longrightarrow>
         execute_signal cfg now1 now2 dc rm sg = Inr (Stopped Emergency_stop_active, dc, rm))
   \<and> (ENABLE_TRADING cfg \<and> \<not> EMERGENCY_STOP cfg
         \<and> check_daily_limits cfg now1 now2 dc rm = Inr ((False, why), dc1, rm1) \<longrightarrow>
         execute_signal cfg now1 now2 dc rm sg = Inr (Stopped why, dc1, rm1))
   \<and> (ENABLE_TRADING cfg \<and> \<not> EMERGENCY_STOP cfg
         \<and> check_daily_limits cfg now1 now2 dc rm = Inr ((True, why), dc1, rm1)
         \<and> calculate_position_size cfg dc1 (entry_price sg) (stop_loss sg) (strength sg) = Inr ps1
         \<and> check_risk_limits cfg dc1 ps1 = Inr (False, msg) \<longrightarrow>
         execute_signal cfg now1 now2 dc rm sg = Inr (Stopped (Position_rejected msg), dc1, rm1))"
  by (auto simp: execute_signal_def split: sum.splits prod.splits if_splits)

theorem execute_signal_gates_witness:
  "execute_signal default_config 5 6 funded_account fresh_risk_manager bullish_signal
     = Inr (Order_handed_off bullish_signal
              \<lparr> quantity_btc = 1 / 100, notional_usdt = 500, risk_usdt = 10,
                method_tag = ''fixed_percent'', risk_percent = Some 1, kelly_percent = None \<rparr>,
            funded_account, fresh_risk_manager)
   \<and> execute_signal (default_config\<lparr> ENABLE_TRADING := False \<rparr>) 5 6
        funded_account fresh_risk_manager bullish_signal
     = Inr (Stopped Trading_disabled, funded_account, fresh_risk_manager)
   \<and> execute_signal (default_config\<lparr> EMERGENCY_STOP := True \<rparr>) 5 6
        funded_account fresh_risk_manager bullish_signal
     = Inr (Stopped Emergency_stop_active, funded_account, fresh_risk_manager)"
proof -
  let ?ps = "\<lparr> quantity_btc = 1 / 100, notional_usdt = 500, risk_usdt = 10,
                method_tag = ''fixed_percent'', risk_percent = Some 1, kelly_percent = None \<rparr>"
  have flags: "ENABLE_TRADING default_config" "\<not> EMERGENCY_STOP default_config"
    by (simp_all add: default_config_def)
  have daily: "check_daily_limits default_config 5 6 funded_account fresh_risk_manager
                 = Inr ((True, Daily_limits_OK), funded_account, fresh_risk_manager)"
    by (simp add: check_daily_limits_def default_config_def funded_account_def
          fresh_risk_manager_def one_day_def)
  have size: "calculate_position_size default_config funded_account
                (entry_price bullish_signal) (stop_loss bullish_signal) (strength bullish_signal)
                = Inr ?ps"
    by (simp add: calculate_position_size_def fixed_percent_sizing_def py_truediv_def
          default_config_def funded_account_def bullish_signal_def)
  have risk: "check_risk_limits default_config funded_account ?ps = Inr (True, Position_size_valid)"
    by (simp add: check_risk_limits_def default_config_def funded_account_def)
  have off: "\<not> ENABLE_TRADING (default_config\<lparr> ENABLE_TRADING := False \<rparr>)"
    by simp
  have stop: "ENABLE_TRADING (default_config\<lparr> EMERGENCY_STOP := True \<rparr>)"
             "EMERGENCY_STOP (default_config\<lparr> EMERGENCY_STOP := True \<rparr>)"
    by (simp_all add: default_config_def)
  from execute_signal_gates [where cfg = default_config and ?now1.0 = 5 and ?now2.0 = 6
         and dc = funded_account and rm = fresh_risk_manager and sg = bullish_signal
         and sg' = bullish_signal and ps = ?ps and dc' = funded_account
         and rm' = fresh_risk_manager]
       flags daily size risk
  have a: "execute_signal default_config 5 6 funded_account fresh_risk_manager bullish_signal
             = Inr (Order_handed_off bullish_signal ?ps, funded_account, fresh_risk_manager)"
    by blast
  from execute_signal_gates [where cfg = "default_config\<lparr> ENABLE_TRADING := False \<rparr>"
         and ?now1.0 = 5 and ?now2.0 = 6
         and dc = funded_account and rm = fresh_risk_manager and sg = bullish_signal] off
  have b: "execute_signal (default_config\<lparr> ENABLE_TRADING := False \<rparr>) 5 6
             funded_account fresh_risk_manager bullish_signal
           = Inr (Stopped Trading_disabled, funded_account, fresh_risk_manager)"
    by blast
  from execute_signal_gates [where cfg = "default_config\<lparr> EMERGENCY_STOP := True \<rparr>"
         and ?now1.0 = 5 and ?now2.0 = 6
         and dc = funded_account and rm = fresh_risk_manager and sg = bullish_signal] stop
  have c: "execute_signal (default_config\<lparr> EMERGENCY_STOP := True \<rparr>) 5 6
             funded_account fresh_risk_manager bullish_signal
           = Inr (Stopped Emergency_stop_active, funded_account, fresh_risk_manager)"
    by blast
  from a b c show ?thesis by blast
qed

section \<open>Properties of the trailing stop\<close>

lemma trailing_no_profit:
  "pnl \<le> 0 \<Longrightarrow> update_trailing_stop cfg rm pos p pnl = rm"
  by (simp add: update_trailing_stop_def)

lemma trailing_long_step:
  assumes "0 < positionAmt pos" and "0 < pnl"
  shows "update_trailing_stop cfg rm pos p pnl =
           (if (case active_stops rm (position_id_of pos) of None \<Rightarrow> True
                | Some s \<Rightarrow> s < p * (1 - TRAILING_STOP_PERCENT cfg / 100))
            then rm\<lparr>active_stops := (active_stops rm)
                      (position_id_of pos \<mapsto> p * (1 - TRAILING_STOP_PERCENT cfg / 100))\<rparr>
            else rm)"
  using assms by (simp add: update_trailing_stop_def position_id_of_def Let_def)

lemma trailing_short_step:
  assumes "\<not> 0 < positionAmt pos" and "0 < pnl"
  shows "update_trailing_stop cfg rm pos p pnl =
           (if (case active_stops rm (position_id_of pos) of None \<Rightarrow> True
                | Some s \<Rightarrow> p * (1 + TRAILING_STOP_PERCENT cfg / 100) < s)
            then rm\<lparr>active_stops := (active_stops rm)
                      (position_id_of pos \<mapsto> p * (1 + TRAILING_STOP_PERCENT cfg / 100))\<rparr>
            else rm)"
  using assms by (simp add: update_trailing_stop_def position_id_of_def Let_def)

lemma trailing_long_mono:
  assumes "0 < positionAmt pos" and "active_stops rm k = Some s"
  shows "\<exists>s'. active_stops (update_trailing_stop cfg rm pos p pnl) k = Some s' \<and> s \<le> s'"
proof (cases "0 < pnl")
  case True
  with assms show ?thesis
    by (auto simp: trailing_long_step split: option.splits)
next
  case False
  with assms show ?thesis by (simp add: trailing_no_profit)
qed

lemma trailing_short_mono:
  assumes "\<not> 0 < positionAmt pos" and "active_stops rm k = Some s"
  shows "\<exists>s'. active_stops (update_trailing_stop cfg rm pos p pnl) k = Some s' \<and> s' \<le> s"
proof (cases "0 < pnl")
  case True
  with assms show ?thesis
    by (auto simp: trailing_short_step split: option.splits)
next
  case False
  with assms show ?thesis by (simp add: trailing_no_profit)
qed

lemma trailing_calls_long_mono:
  assumes "\<forall>c \<in> set calls. 0 < positionAmt (fst c)" and "active_stops rm k = Some s"
  shows "\<exists>s'. active_stops (trailing_stop_calls cfg rm calls) k = Some s' \<and> s \<le> s'"
  using assms
proof (induction calls arbitrary: rm s)
  case Nil
  then show ?case by simp
next
  case (Cons c calls)
  obtain pos p pnl where c: "c = (pos, p, pnl)" by (cases c)
  from Cons.prems c have long: "0 < positionAmt pos" by simp
  from trailing_long_mono [OF long Cons.prems(2)]
  obtain s1 where s1: "active_stops (update_trailing_stop cfg rm pos p pnl) k = Some s1" "s \<le> s1"
    by blast
  from Cons.prems(1) have rest: "\<forall>c \<in> set calls. 0 < positionAmt (fst c)" by simp
  from Cons.IH [OF rest s1(1)]
  obtain s' where "active_stops (trailing_stop_calls cfg (update_trailing_stop cfg rm pos p pnl) calls) k = Some s'"
    and "s1 \<le> s'" by blast
  with s1(2) c show ?case by auto
qed

lemma trailing_calls_short_mono:
  assumes "\<forall>c \<in> set calls. \<not> 0 < positionAmt (fst c)" and "active_stops rm k = Some s"
  shows "\<exists>s'. active_stops (trailing_stop_calls cfg rm calls) k = Some s' \<and> s' \<le> s"
  using assms
proof (induction calls arbitrary: rm s)
  case Nil
  then show ?case by simp
next
  case (Cons c calls)
  obtain pos p pnl where c: "c = (pos, p, pnl)" by (cases c)
  from Cons.prems c have short: "\<not> 0 < positionAmt pos" by simp
  from trailing_short_mono [OF short Cons.prems(2)]
  obtain s1 where s1: "active_stops (update_trailing_stop cfg rm pos p pnl) k = Some s1" "s1 \<le> s"
    by blast
  from Cons.prems(1) have rest: "\<forall>c \<in> set calls. \<not> 0 < positionAmt (fst c)" by simp
  from Cons.IH [OF rest s1(1)]
  obtain s' where "active_stops (trailing_stop_calls cfg (update_trailing_stop cfg rm pos p pnl) calls) k = Some s'"
    and "s' \<le> s1" by blast
  with s1(2) c show ?case by auto
qed

text \<open>
  C2. For a long position (positive amount) with positive unrealized PnL,
  \<open>_update_trailing_stop\<close> replaces the tracked stop of the position id only when none is
  tracked or the new stop is strictly higher; for a short position it replaces it only
  by a strictly lower one; with unrealized PnL at most zero it changes nothing. Hence
  over any run of successive calls for long positions a tracked stop never decreases,
  and over any run for short positions it never increases.
\<close>

theorem trailing_stop_monotonic:
  "(0 < positionAmt pos \<and> 0 < pnl \<longrightarrow>
      update_trailing_stop cfg rm pos p pnl =
        (if (case active_stops rm (position_id_of pos) of None \<Rightarrow> True
             | Some s \<Rightarrow> s < p * (1 - TRAILING_STOP_PERCENT cfg / 100))
         then rm\<lparr>active_stops := (active_stops rm)
                   (position_id_of pos \<mapsto> p * (1 - TRAILING_STOP_PERCENT cfg / 100))\<rparr>
         else rm))
   \<and> (\<not> 0 < positionAmt pos \<and> 0 < pnl \<longrightarrow>
      update_trailing_stop cfg rm pos p pnl =
        (if (case active_stops rm (position_id_of pos) of None \<Rightarrow> True
             | Some s \<Rightarrow> p * (1 + TRAILING_STOP_PERCENT cfg / 100) < s)
         then rm\<lparr>active_stops := (active_stops rm)
                   (position_id_of pos \<mapsto> p * (1 + TRAILING_STOP_PERCENT cfg / 100))\<rparr>
         else rm))
   \<and> (pnl \<le> 0 \<longrightarrow> update_trailing_stop cfg rm pos p pnl = rm)
   \<and> ((\<forall>c \<in> set calls. 0 < positionAmt (fst c)) \<and> active_stops rm k = Some s \<longrightarrow>
        (\<exists>s'. active_stops (trailing_stop_calls cfg rm calls) k = Some s' \<and> s \<le> s'))
   \<and> ((\<forall>c \<in> set calls. \<not> 0 < positionAmt (fst c)) \<and> active_stops rm k = Some s \<longrightarrow>
        (\<exists>s'. active_stops (trailing_stop_calls cfg rm calls) k = Some s' \<and> s' \<le> s))"
  using trailing_long_step [of pos pnl cfg rm p] trailing_short_step [of pos pnl cfg rm p]
    trailing_no_profit [of pnl cfg rm pos p]
    trailing_calls_long_mono [of calls rm k s cfg] trailing_calls_short_mono [of calls rm k s cfg]
  by blast

theorem trailing_stop_monotonic_witness:
  "0 < positionAmt long_position
   \<and> active_stops tracking_risk_manager ''BTCUSDT_LONG'' = Some 49000
   \<and> (\<exists>s'. active_stops (trailing_stop_calls default_config tracking_risk_manager rising_calls)
             ''BTCUSDT_LONG'' = Some s' \<and> 49000 \<le> s')
   \<and> update_trailing_stop default_config tracking_risk_manager long_position 50000 (- 3)
       = tracking_risk_manager"
proof -
  have long: "\<forall>c \<in> set rising_calls. 0 < positionAmt (fst c)"
    by (simp add: rising_calls_def long_position_def)
  have start: "active_stops tracking_risk_manager ''BTCUSDT_LONG'' = Some 49000"
    by (simp add: tracking_risk_manager_def)
  have loss: "(- 3 :: real) \<le> 0" by simp
  from trailing_stop_monotonic [where calls = rising_calls
         and rm = tracking_risk_manager and k = "''BTCUSDT_LONG''" and s = 49000
         and cfg = default_config and pnl = "- 3" and pos = long_position and p = 50000]
       long start loss
  show ?thesis by (simp add: long_position_def)
qed

section \<open>Properties of the final decision of the strategy\<close>

lemma step_level_action: "step_level p ls d l sg = Inr sg' \<Longrightarrow> action sg' = action sg"
  by (auto simp: step_level_def py_truediv_def split: list.splits if_splits)

lemma step_divergence_action: "step_divergence dv sg = Inr sg' \<Longrightarrow> action sg' = action sg"
  by (auto simp: step_divergence_def split: option.splits if_splits)

lemma accumulate_signal_action:
  assumes "accumulate_signal p ma sr dv ofl = Inr acc"
  shows "action acc = ''wait''"
proof -
  from assms obtain sg3a sg3b sg4 where
    a: "step_level p (support sr) Price_at_major_support ''bullish''
          (step_moving_averages ma initial_signal) = Inr sg3a"
    and b: "step_level p (resistance sr) Price_at_major_resistance ''bearish'' sg3a = Inr sg3b"
    and c: "step_divergence dv sg3b = Inr sg4"
    and d: "acc = step_orderflow ofl sg4"
    by (auto simp: accumulate_signal_def Let_def split: sum.splits)
  have "action (step_moving_averages ma initial_signal) = ''wait''"
    by (simp add: step_moving_averages_def initial_signal_def)
  with step_level_action [OF a] step_level_action [OF b] step_divergence_action [OF c] d
  show ?thesis by (simp add: step_orderflow_def)
qed

lemma final_decision_fields:
  "strength (final_decision cfg mc p sg) = strength sg"
  "bias (final_decision cfg mc p sg) = bias sg"
  "reasons (final_decision cfg mc p sg) =
     (if MIN_SIGNAL_STRENGTH cfg \<le> strength sg
         \<and> \<not> fst (should_trade_in_current_conditions cfg mc (bias sg))
      then reasons sg @ [Rejection (snd (should_trade_in_current_conditions cfg mc (bias sg)))]
      else reasons sg)"
  by (auto simp: final_decision_def Let_def split: prod.splits)

lemma final_decision_action:
  "action sg = ''wait'' \<Longrightarrow>
   action (final_decision cfg mc p sg) =
     (if MIN_SIGNAL_STRENGTH cfg \<le> strength sg
         \<and> fst (should_trade_in_current_conditions cfg mc (bias sg))
      then (if bias sg = ''bullish'' then ''buy''
            else if bias sg = ''bearish'' then ''sell'' else ''wait'')
      else ''wait'')"
  by (auto simp: final_decision_def Let_def split: prod.splits)

text \<open>
  C3, as the code has it. In every cycle that returns, the action is \<open>buy\<close> or \<open>sell\<close>
  only if the market is tradeable, the accumulated strength is at least
  \<open>MIN_SIGNAL_STRENGTH\<close> and \<open>should_trade_in_current_conditions\<close> approves the bias;
  then it is \<open>buy\<close> for a bullish and \<open>sell\<close> for a bearish bias. In every other case
  the action is \<open>wait\<close>. A reason for waiting is recorded in two cases only: the market
  is not tradeable (the warnings are the only reason of the signal), or the strength
  reaches the minimum and the gate rejects (the gate's reason is appended to the
  accumulated reasons). When the strength is below the minimum, or the gate approves a
  bias that is neither bullish nor bearish, the reasons are the accumulated ones and
  nothing is appended.
\<close>

theorem analyze_market_decision:
  assumes "analyze_market cfg mc conds p ma sr dv ofl = Inr sg"
  shows "(action sg = ''buy'' \<or> action sg = ''sell'' \<longrightarrow>
            is_tradeable conds \<and> MIN_SIGNAL_STRENGTH cfg \<le> strength sg
            \<and> fst (should_trade_in_current_conditions cfg mc (bias sg)))
       \<and> (action sg \<noteq> ''buy'' \<and> action sg \<noteq> ''sell'' \<longrightarrow> action sg = ''wait'')
       \<and> (is_tradeable conds \<and> MIN_SIGNAL_STRENGTH cfg \<le> strength sg
            \<and> fst (should_trade_in_current_conditions cfg mc (bias sg)) \<longrightarrow>
            action sg = (if bias sg = ''bullish'' then ''buy''
                         else if bias sg = ''bearish'' then ''sell'' else ''wait''))
       \<and> (\<not> is_tradeable conds \<longrightarrow> reasons sg = [Market_not_tradeable (warnings conds)])
       \<and> (is_tradeable conds \<longrightarrow>
            (\<exists>acc. accumulate_signal p ma sr dv ofl = Inr acc
               \<and> strength sg = strength acc \<and> bias sg = bias acc
               \<and> reasons sg =
                   (if MIN_SIGNAL_STRENGTH cfg \<le> strength acc
                       \<and> \<not> fst (should_trade_in_current_conditions cfg mc (bias acc))
                    then reasons acc
                           @ [Rejection (snd (should_trade_in_current_conditions cfg mc (bias acc)))]
                    else reasons acc)))"
proof (cases "is_tradeable conds")
  case False
  with assms have "sg = initial_signal\<lparr> reasons := [Market_not_tradeable (warnings conds)] \<rparr>"
    by (simp add: analyze_market_def)
  with False show ?thesis by (simp add: initial_signal_def)
next
  case True
  with assms obtain acc where acc: "accumulate_signal p ma sr dv ofl = Inr acc"
    and sg: "sg = final_decision cfg mc p acc"
    by (auto simp: analyze_market_def split: sum.splits)
  note w = accumulate_signal_action [OF acc]
  show ?thesis
    using True acc
    by (simp add: sg final_decision_fields final_decision_action [OF w])
qed

lemma strong_run:
  "analyze_market default_config trending_up_market tradeable_conditions 50000
     strong_ma near_support no_divergence quiet_orderflow
   = Inr \<lparr> bias = ''bullish'', strength = 65,
           reasons = [MA_description ''All EMAs aligned bullish'', Price_at_major_support 49900],
           action = ''buy'', entry_price = 50000, stop_loss = 49000, take_profit = 52000 \<rparr>"
  by (simp add: analyze_market_def accumulate_signal_def step_moving_averages_def
        step_level_def step_divergence_def step_orderflow_def final_decision_def
        should_trade_in_current_conditions_def py_truediv_def
        initial_signal_def default_config_def trending_up_market_def tradeable_conditions_def
        strong_ma_def near_support_def no_divergence_def quiet_orderflow_def)

theorem analyze_market_decision_witness:
  "analyze_market default_config trending_up_market tradeable_conditions 50000
     strong_ma near_support no_divergence quiet_orderflow
   = Inr \<lparr> bias = ''bullish'', strength = 65,
           reasons = [MA_description ''All EMAs aligned bullish'', Price_at_major_support 49900],
           action = ''buy'', entry_price = 50000, stop_loss = 49000, take_profit = 52000 \<rparr>
   \<and> MIN_SIGNAL_STRENGTH default_config \<le> 65
   \<and> fst (should_trade_in_current_conditions default_config trending_up_market ''bullish'')"
  using analyze_market_decision [OF strong_run] strong_run by simp

text \<open>
  C3 as the claim states it fails: in an uptrend with a bullish moving-average signal of
  strength 40, below the minimum of 60, the action is \<open>wait\<close> and the reasons hold the
  moving-average line only; no rejection reason is appended.
\<close>

theorem analyze_market_silent_wait:
  "analyze_market default_config trending_up_market tradeable_conditions 50000
     aligned_ma no_levels no_divergence quiet_orderflow
   = Inr \<lparr> bias = ''bullish'', strength = 40,
           reasons = [MA_description ''All EMAs aligned bullish''], action = ''wait'',
           entry_price = 0, stop_loss = 0, take_profit = 0 \<rparr>
   \<and> \<not> MIN_SIGNAL_STRENGTH default_config \<le> 40"
  by (simp add: analyze_market_def accumulate_signal_def step_moving_averages_def
        step_level_def step_divergence_def step_orderflow_def final_decision_def
        initial_signal_def default_config_def trending_up_market_def tradeable_conditions_def
        aligned_ma_def no_levels_def no_divergence_def quiet_orderflow_def)

section \<open>Properties of the volume profile\<close>

lemma dict_get_dict_set_same: "dict_get (dict_set k v d) k = Inr v"
  by (induction d) auto

lemma dict_keys_dict_set:
  "dict_keys (dict_set k v d) = (if k \<in> set (dict_keys d) then dict_keys d else dict_keys d @ [k])"
  by (induction d) (auto simp: dict_keys_def)

lemma dict_get_key: "k \<in> set (dict_keys d) \<Longrightarrow> \<exists>v. dict_get d k = Inr v"
  by (induction d) (auto simp: dict_keys_def)

lemma sum_dict_set_new:
  "k \<notin> set (dict_keys d) \<Longrightarrow>
   sum_list (dict_values (dict_set k v d)) = sum_list (dict_values d) + v"
  by (induction d) (auto simp: dict_keys_def dict_values_def)

lemma sum_dict_set_old:
  "dict_get d k = Inr w \<Longrightarrow>
   sum_list (dict_values (dict_set k v d)) = sum_list (dict_values d) - w + v"
  by (induction d) (auto simp: dict_values_def split: if_splits)

lemma distinct_dict_set:
  "distinct (dict_keys d) \<Longrightarrow> distinct (dict_keys (dict_set k v d))"
  by (simp add: dict_keys_dict_set)

lemma dict_set_not_empty: "dict_set k v d \<noteq> []"
  by (cases d) auto

lemma bin_trades_step:
  assumes "bin_trades m b (t # ts) d = Inr d'"
  shows "\<exists>bp d1 v. d1 = (if bp \<notin> set (dict_keys d) then dict_set bp 0 d else d)
           \<and> dict_get d1 bp = Inr v
           \<and> bin_trades m b ts (dict_set bp (v + quantity t) d1) = Inr d'"
  using assms by (simp add: Let_def split: sum.splits split del: if_split) blast

lemma bin_trades_sum:
  "bin_trades min_price bin_size ts d = Inr d' \<Longrightarrow>
   sum_list (dict_values d') = sum_list (dict_values d) + sum_list (map quantity ts)"
proof (induction ts arbitrary: d)
  case Nil
  then show ?case by simp
next
  case (Cons t ts)
  from bin_trades_step [OF Cons.prems] obtain bp d1 v where
    d1: "d1 = (if bp \<notin> set (dict_keys d) then dict_set bp 0 d else d)"
    and v: "dict_get d1 bp = Inr v"
    and rest: "bin_trades min_price bin_size ts (dict_set bp (v + quantity t) d1) = Inr d'"
    by blast
  have d1_sum: "sum_list (dict_values d1) = sum_list (dict_values d)"
    by (simp add: d1 sum_dict_set_new)
  from Cons.IH [OF rest] sum_dict_set_old [OF v, of "v + quantity t"] d1_sum
  show ?case by simp
qed

lemma bin_trades_distinct:
  "bin_trades min_price bin_size ts d = Inr d' \<Longrightarrow> distinct (dict_keys d)
   \<Longrightarrow> distinct (dict_keys d')"
proof (induction ts arbitrary: d)
  case Nil
  then show ?case by simp
next
  case (Cons t ts)
  from bin_trades_step [OF Cons.prems(1)] obtain bp d1 v where
    d1: "d1 = (if bp \<notin> set (dict_keys d) then dict_set bp 0 d else d)"
    and rest: "bin_trades min_price bin_size ts (dict_set bp (v + quantity t) d1) = Inr d'"
    by blast
  have "distinct (dict_keys (dict_set bp (v + quantity t) d1))"
    using Cons.prems(2) by (simp add: d1 distinct_dict_set)
  from Cons.IH [OF rest this] show ?case .
qed

lemma bin_trades_not_empty:
  "bin_trades min_price bin_size ts d = Inr d' \<Longrightarrow> ts \<noteq> [] \<or> d \<noteq> [] \<Longrightarrow> d' \<noteq> []"
proof (induction ts arbitrary: d)
  case Nil
  then show ?case by simp
next
  case (Cons t ts)
  from bin_trades_step [OF Cons.prems(1)] obtain bp d1 v where
    rest: "bin_trades min_price bin_size ts (dict_set bp (v + quantity t) d1) = Inr d'"
    by blast
  from Cons.IH [OF rest] show ?case by (simp add: dict_set_not_empty)
qed

lemma bin_trades_total:
  "bin_size \<noteq> 0 \<Longrightarrow> \<exists>d'. bin_trades min_price bin_size ts d = Inr d'"
proof (induction ts arbitrary: d)
  case Nil
  then show ?case by simp
next
  case (Cons t ts)
  let ?bp = "min_price + real_of_int (py_int ((price t - min_price) / bin_size)) * bin_size"
  let ?d1 = "if ?bp \<notin> set (dict_keys d) then dict_set ?bp 0 d else d"
  have "?bp \<in> set (dict_keys ?d1)"
    by (simp add: dict_keys_dict_set)
  from dict_get_key [OF this] obtain v where v: "dict_get ?d1 ?bp = Inr v" by blast
  from Cons.IH [OF Cons.prems, of "dict_set ?bp (v + quantity t) ?d1"] v Cons.prems
  show ?case
    by (simp add: py_truediv_def Let_def split del: if_split)
qed

lemma calculate_value_area_keeps:
  "calculate_value_area cfg vp = Inr vp' \<Longrightarrow> profile vp' = profile vp \<and> poc vp' = poc vp"
  by (auto simp: calculate_value_area_def Let_def split: if_splits sum.splits prod.splits)

lemma build_profile_Cons:
  assumes "recent_trades_of dc now h = t0 # ts0"
    and "py_truediv (foldl max (price t0) (map price ts0) - foldl min (price t0) (map price ts0))
           (real_of_int (VP_PRICE_BINS cfg)) = Inr bin_size"
    and "bin_trades (foldl min (price t0) (map price ts0)) bin_size (t0 # ts0) [] = Inr (kv # d0)"
  shows "build_profile cfg dc now vp h =
           (case calculate_value_area cfg (vp\<lparr> profile := kv # d0, poc := fst (max_by_value kv d0) \<rparr>) of
              Inl e \<Rightarrow> Inl e
            | Inr vp3 \<Rightarrow>
                Inr (Some \<lparr> res_profile = profile vp3, res_poc = poc vp3,
                            res_value_area_high = value_area_high vp3,
                            res_value_area_low = value_area_low vp3,
                            res_total_volume = sum_list (dict_values (kv # d0)) \<rparr>, vp3))"
  by (simp add: build_profile_def Let_def assms del: bin_trades.simps)

lemma build_profile_parts:
  assumes "build_profile cfg dc now vp h = Inr (Some res, vp')"
  shows "\<exists>min_price bin_size.
           bin_trades min_price bin_size (recent_trades_of dc now h) [] = Inr (res_profile res)
           \<and> recent_trades_of dc now h \<noteq> []
           \<and> res_total_volume res = sum_list (dict_values (res_profile res))
           \<and> profile vp' = res_profile res \<and> poc vp' = res_poc res
           \<and> value_area_low vp' = res_value_area_low res
           \<and> value_area_high vp' = res_value_area_high res
           \<and> (\<exists>kv d. res_profile res = kv # d \<and> res_poc res = fst (max_by_value kv d))"
proof -
  let ?recent = "recent_trades_of dc now h"
  from assms obtain t0 ts0 where r: "?recent = t0 # ts0"
    by (cases ?recent) (simp_all add: build_profile_def)
  let ?min = "foldl min (price t0) (map price ts0)"
  let ?max = "foldl max (price t0) (map price ts0)"
  from assms r obtain bin_size where
    bs: "py_truediv (?max - ?min) (real_of_int (VP_PRICE_BINS cfg)) = Inr bin_size"
    by (cases "py_truediv (?max - ?min) (real_of_int (VP_PRICE_BINS cfg))")
       (simp_all add: build_profile_def Let_def del: bin_trades.simps)
  from assms r bs obtain d where d: "bin_trades ?min bin_size (t0 # ts0) [] = Inr d"
    by (cases "bin_trades ?min bin_size (t0 # ts0) []")
       (simp_all add: build_profile_def Let_def del: bin_trades.simps)
  from bin_trades_not_empty [OF d] obtain kv d0 where kv: "d = kv # d0"
    by (cases d) auto
  let ?vp2 = "vp\<lparr> profile := kv # d0, poc := fst (max_by_value kv d0) \<rparr>"
  note unfold = build_profile_Cons [OF r bs d [unfolded kv], of vp]
  show ?thesis
  proof (cases "calculate_value_area cfg ?vp2")
    case (Inl e)
    with assms unfold show ?thesis by simp
  next
    case (Inr vp3)
    from assms have "build_profile cfg dc now vp h = Inr (Some res, vp')" .
    with unfold Inr have "Inr (Some \<lparr> res_profile = profile vp3, res_poc = poc vp3,
                            res_value_area_high = value_area_high vp3,
                            res_value_area_low = value_area_low vp3,
                            res_total_volume = sum_list (dict_values (kv # d0)) \<rparr>, vp3)
              = (Inr (Some res, vp') :: py_error + (profile_result option \<times> volume_profile))"
      by (simp only: sum.case)
    then have both: "res = \<lparr> res_profile = profile vp3, res_poc = poc vp3,
                            res_value_area_high = value_area_high vp3,
                            res_value_area_low = value_area_low vp3,
                            res_total_volume = sum_list (dict_values (kv # d0)) \<rparr>
                     \<and> vp' = vp3"
      by (simp only: sum.inject prod.inject option.inject) blast
    from both have res: "res = \<lparr> res_profile = profile vp3, res_poc = poc vp3,
                            res_value_area_high = value_area_high vp3,
                            res_value_area_low = value_area_low vp3,
                            res_total_volume = sum_list (dict_values (kv # d0)) \<rparr>" ..
    from both have vp': "vp' = vp3" ..
    from calculate_value_area_keeps [OF Inr]
    have keep: "profile vp3 = kv # d0" "poc vp3 = fst (max_by_value kv d0)"
      by simp_all
    have "bin_trades ?min bin_size ?recent [] = Inr (res_profile res)"
      using d by (simp add: r res keep kv del: bin_trades.simps)
    moreover have "?recent \<noteq> []" by (simp add: r)
    moreover have "res_total_volume res = sum_list (dict_values (res_profile res))"
      by (simp add: res keep)
    moreover have "profile vp' = res_profile res \<and> poc vp' = res_poc res
             \<and> value_area_low vp' = res_value_area_low res
             \<and> value_area_high vp' = res_value_area_high res"
      by (simp add: res vp')
    moreover have "\<exists>kv d. res_profile res = kv # d \<and> res_poc res = fst (max_by_value kv d)"
      by (simp add: res keep)
    ultimately show ?thesis by blast
  qed
qed

lemma foldl_min_le: "foldl min (a::real) xs \<le> a \<and> (\<forall>x \<in> set xs. foldl min a xs \<le> x)"
proof (induction xs arbitrary: a)
  case Nil
  then show ?case by simp
next
  case (Cons x xs)
  from Cons.IH [of "min a x"] show ?case by auto
qed

lemma foldl_max_ge: "a \<le> foldl max (a::real) xs \<and> (\<forall>x \<in> set xs. x \<le> foldl max a xs)"
proof (induction xs arbitrary: a)
  case Nil
  then show ?case by simp
next
  case (Cons x xs)
  from Cons.IH [of "max a x"] show ?case by auto
qed

lemma two_prices_spread:
  assumes "t1 \<in> set (t0 # ts0)" and "t2 \<in> set (t0 # ts0)" and "price t1 \<noteq> price t2"
  shows "foldl min (price t0) (map price ts0) < foldl max (price t0) (map price ts0)"
proof -
  have lo: "foldl min (price t0) (map price ts0) \<le> price t" if "t \<in> set (t0 # ts0)" for t
    using foldl_min_le [of "price t0" "map price ts0"] that by auto
  have hi: "price t \<le> foldl max (price t0) (map price ts0)" if "t \<in> set (t0 # ts0)" for t
    using foldl_max_ge [of "price t0" "map price ts0"] that by auto
  from lo [OF assms(1)] lo [OF assms(2)] hi [OF assms(1)] hi [OF assms(2)] assms(3)
  show ?thesis by linarith
qed

lemma dict_get_volume_at:
  "k \<in> set (dict_keys prof) \<Longrightarrow> dict_get prof k = Inr (volume_at prof k)"
  using dict_get_key [of k prof] by (auto simp: volume_at_def)

lemma va_step_in_range:
  assumes "set sp \<subseteq> set (dict_keys prof)" and "lo \<le> hi" and "hi < length sp"
  shows "va_step prof sp (va, lo, hi) =
           Inr (if 0 < lo \<and> (if hi < length sp - 1 then volume_at prof (sp ! (hi + 1)) else 0)
                              < volume_at prof (sp ! (lo - 1))
                then Some (va + volume_at prof (sp ! (lo - 1)), lo - 1, hi)
                else if hi < length sp - 1
                then Some (va + volume_at prof (sp ! (hi + 1)), lo, hi + 1)
                else None)"
proof -
  have low: "dict_get prof (sp ! (lo - 1)) = Inr (volume_at prof (sp ! (lo - 1)))"
    using assms by (intro dict_get_volume_at) (auto simp: subset_iff)
  have high: "dict_get prof (sp ! (hi + 1)) = Inr (volume_at prof (sp ! (hi + 1)))"
    if "hi < length sp - 1"
    using assms that by (intro dict_get_volume_at) (auto simp: subset_iff)
  show ?thesis
    by (cases "hi < length sp - 1")
       (simp_all add: va_step_def low high del: One_nat_def)
qed

lemma va_loop_invariant:
  assumes "set sp \<subseteq> set (dict_keys prof)" and "lo \<le> pidx" and "pidx \<le> hi" and "hi < length sp"
    and "va = (\<Sum>i = lo..hi. volume_at prof (sp ! i))"
  shows "\<exists>va' lo' hi'. va_loop prof sp target (va, lo, hi) = Inr (va', lo', hi')
          \<and> lo' \<le> pidx \<and> pidx \<le> hi' \<and> hi' < length sp
          \<and> va' = (\<Sum>i = lo'..hi'. volume_at prof (sp ! i))
          \<and> (target \<le> va'
               \<or> (hi' = length sp - 1 \<and> (lo' = 0 \<or> volume_at prof (sp ! (lo' - 1)) \<le> 0)))"
  using assms
proof (induction prof sp target "(va, lo, hi)" arbitrary: va lo hi rule: va_loop.induct)
  case (1 prof sp target)
  let ?g = "\<lambda>i. volume_at prof (sp ! i)"
  let ?high = "if hi < length sp - 1 then ?g (hi + 1) else 0"
  from "1.prems" have range: "lo \<le> hi" "hi < length sp" by simp_all
  note step = va_step_in_range [OF "1.prems"(1) range, of va]
  show ?case
  proof (cases "va < target")
    case False
    then have "va_loop prof sp target (va, lo, hi) = Inr (va, lo, hi)"
      by (subst va_loop.simps) simp
    with False "1.prems" show ?thesis by simp
  next
    case True
    consider (down) "0 < lo" "?high < ?g (lo - 1)"
      | (up) "\<not> (0 < lo \<and> ?high < ?g (lo - 1))" "hi < length sp - 1"
      | (stop) "\<not> (0 < lo \<and> ?high < ?g (lo - 1))" "\<not> hi < length sp - 1"
      by blast
    then show ?thesis
    proof cases
      case down
      with step have st: "va_step prof sp (va, lo, hi) = Inr (Some (va + ?g (lo - 1), lo - 1, hi))"
        by simp
      have sum: "va + ?g (lo - 1) = (\<Sum>i = lo - 1..hi. ?g i)"
      proof -
        from down(1) obtain l where l: "lo = Suc l" by (cases lo) auto
        with range have "l \<le> hi" by simp
        from sum.atLeast_Suc_atMost [OF this, of ?g] "1.prems"(5) l
        show ?thesis by simp
      qed
      have unfold: "va_loop prof sp target (va, lo, hi)
                      = va_loop prof sp target (va + ?g (lo - 1), lo - 1, hi)"
        using True st by (subst va_loop.simps) simp
      from "1.hyps" [OF _ st refl "1.prems"(1) _ "1.prems"(3) "1.prems"(4) sum]
           True "1.prems"(2)
      show ?thesis by (simp add: unfold)
    next
      case up
      with step have st: "va_step prof sp (va, lo, hi) = Inr (Some (va + ?g (hi + 1), lo, hi + 1))"
        by auto
      have sum: "va + ?g (hi + 1) = (\<Sum>i = lo..hi + 1. ?g i)"
        using range "1.prems"(5) by simp
      have unfold: "va_loop prof sp target (va, lo, hi)
                      = va_loop prof sp target (va + ?g (hi + 1), lo, hi + 1)"
        using True st by (subst va_loop.simps) simp
      from up(2) have in_range: "hi + 1 < length sp" by simp
      from "1.hyps" [OF _ st refl "1.prems"(1) "1.prems"(2) _ in_range sum]
           True "1.prems"(3)
      show ?thesis by (simp add: unfold)
    next
      case stop
      with step have st: "va_step prof sp (va, lo, hi) = Inr None"
        by auto
      have "va_loop prof sp target (va, lo, hi) = Inr (va, lo, hi)"
        using True st by (subst va_loop.simps) simp
      moreover from stop range have "hi = length sp - 1" by simp
      moreover from stop have "lo = 0 \<or> ?g (lo - 1) \<le> 0"
        by (auto split: if_splits)
      ultimately show ?thesis using "1.prems" by simp
    qed
  qed
qed

lemma list_index_found:
  "x \<in> set ys \<Longrightarrow> \<exists>i. list_index ys x = Inr i \<and> i < length ys \<and> ys ! i = x"
  by (induction ys) auto

lemma calculate_value_area_result:
  assumes "profile vp \<noteq> []" and "poc vp \<in> set (dict_keys (profile vp))"
  shows "\<exists>lo hi pidx.
           calculate_value_area cfg vp
             = Inr (vp\<lparr> value_area_low := sort (dict_keys (profile vp)) ! lo,
                        value_area_high := sort (dict_keys (profile vp)) ! hi \<rparr>)
           \<and> lo \<le> pidx \<and> pidx \<le> hi \<and> hi < length (dict_keys (profile vp))
           \<and> sort (dict_keys (profile vp)) ! pidx = poc vp
           \<and> (sum_list (dict_values (profile vp)) * (VP_VALUE_AREA_PERCENT cfg / 100)
                 \<le> (\<Sum>i = lo..hi. volume_at (profile vp) (sort (dict_keys (profile vp)) ! i))
               \<or> (hi = length (dict_keys (profile vp)) - 1
                   \<and> (lo = 0 \<or> volume_at (profile vp) (sort (dict_keys (profile vp)) ! (lo - 1)) \<le> 0)))"
proof -
  let ?prof = "profile vp"
  let ?sp = "sort (dict_keys ?prof)"
  let ?target = "sum_list (dict_values ?prof) * (VP_VALUE_AREA_PERCENT cfg / 100)"
  from assms(2) have "poc vp \<in> set ?sp" by simp
  from list_index_found [OF this] obtain pidx where
    idx: "list_index ?sp (poc vp) = Inr pidx" and pidx: "pidx < length ?sp" "?sp ! pidx = poc vp"
    by blast
  have get: "dict_get ?prof (poc vp) = Inr (volume_at ?prof (poc vp))"
    by (rule dict_get_volume_at [OF assms(2)])
  have keys: "set ?sp \<subseteq> set (dict_keys ?prof)" by simp
  have start: "volume_at ?prof (poc vp) = (\<Sum>i = pidx..pidx. volume_at ?prof (?sp ! i))"
    by (simp add: pidx)
  from va_loop_invariant [OF keys order_refl order_refl pidx(1) start, of ?target]
  obtain va' lo hi where
    loop: "va_loop ?prof ?sp ?target (volume_at ?prof (poc vp), pidx, pidx) = Inr (va', lo, hi)"
    and inv: "lo \<le> pidx" "pidx \<le> hi" "hi < length ?sp"
      "va' = (\<Sum>i = lo..hi. volume_at ?prof (?sp ! i))"
      "?target \<le> va' \<or> (hi = length ?sp - 1 \<and> (lo = 0 \<or> volume_at ?prof (?sp ! (lo - 1)) \<le> 0))"
    by blast
  have "calculate_value_area cfg vp
          = Inr (vp\<lparr> value_area_low := ?sp ! lo, value_area_high := ?sp ! hi \<rparr>)"
    using assms(1) loop by (simp add: calculate_value_area_def Let_def idx get)
  with inv pidx show ?thesis
    by (intro exI [of _ lo] exI [of _ hi] exI [of _ pidx]) simp
qed

lemma volume_at_Cons:
  "volume_at (kv # d) k = (if fst kv = k then snd kv else volume_at d k)"
  by (simp add: volume_at_def)

lemma filter_sum_as_set:
  "distinct (dict_keys d) \<Longrightarrow>
   sum_list (map snd (filter (\<lambda>kv. P (fst kv)) d))
     = (\<Sum>k \<in> {k \<in> set (dict_keys d). P k}. volume_at d k)"
proof (induction d)
  case Nil
  then show ?case by (simp add: dict_keys_def)
next
  case (Cons kv d)
  from Cons.prems have fresh: "fst kv \<notin> set (dict_keys d)" and dist: "distinct (dict_keys d)"
    by (simp_all add: dict_keys_def)
  have same: "(\<Sum>k \<in> {k \<in> set (dict_keys d). P k}. volume_at (kv # d) k)
                = (\<Sum>k \<in> {k \<in> set (dict_keys d). P k}. volume_at d k)"
    using fresh by (intro sum.cong) (auto simp: volume_at_Cons)
  show ?case
  proof (cases "P (fst kv)")
    case True
    then have "{k \<in> set (dict_keys (kv # d)). P k} = insert (fst kv) {k \<in> set (dict_keys d). P k}"
      by (auto simp: dict_keys_def)
    with True fresh same Cons.IH [OF dist] show ?thesis
      by (simp add: volume_at_Cons)
  next
    case False
    then have "{k \<in> set (dict_keys (kv # d)). P k} = {k \<in> set (dict_keys d). P k}"
      by (auto simp: dict_keys_def)
    with False same Cons.IH [OF dist] show ?thesis by simp
  qed
qed

lemma sorted_band_indices:
  assumes "sorted sp" and "distinct sp" and "lo \<le> hi" and "hi < length sp"
  shows "{k \<in> set sp. sp ! lo \<le> k \<and> k \<le> sp ! hi} = (\<lambda>i. sp ! i) ` {lo..hi}"
proof -
  from assms(1,2) have strict: "sorted_wrt (<) sp" by (simp add: strict_sorted_iff)
  have less: "sp ! i < sp ! j" if "i < j" "j < length sp" for i j
    using strict that by (simp add: sorted_wrt_iff_nth_less)
  have mono: "sp ! i \<le> sp ! j" if "i \<le> j" "j < length sp" for i j
    using assms(1) that by (simp add: sorted_iff_nth_mono)
  show ?thesis
  proof (intro set_eqI iffI)
    fix k assume "k \<in> {k \<in> set sp. sp ! lo \<le> k \<and> k \<le> sp ! hi}"
    then obtain j where j: "j < length sp" "sp ! j = k" and b: "sp ! lo \<le> k" "k \<le> sp ! hi"
      by (auto simp: in_set_conv_nth)
    have "lo \<le> j"
    proof (rule ccontr)
      assume "\<not> lo \<le> j"
      then have "j < lo" by simp
      from less [OF this] assms(3,4) j b show False by simp
    qed
    moreover have "j \<le> hi"
    proof (rule ccontr)
      assume "\<not> j \<le> hi"
      then have "hi < j" by simp
      from less [OF this j(1)] j b show False by simp
    qed
    ultimately show "k \<in> (\<lambda>i. sp ! i) ` {lo..hi}" using j by auto
  next
    fix k assume "k \<in> (\<lambda>i. sp ! i) ` {lo..hi}"
    then obtain i where i: "lo \<le> i" "i \<le> hi" "k = sp ! i" by auto
    with assms(4) mono [of lo i] mono [of i hi] show "k \<in> {k \<in> set sp. sp ! lo \<le> k \<and> k \<le> sp ! hi}"
      by auto
  qed
qed

lemma band_volume_as_sum:
  assumes "distinct (dict_keys prof)" and "lo \<le> hi" and "hi < length (dict_keys prof)"
  shows "band_volume prof (sort (dict_keys prof) ! lo) (sort (dict_keys prof) ! hi)
           = (\<Sum>i = lo..hi. volume_at prof (sort (dict_keys prof) ! i))"
proof -
  let ?sp = "sort (dict_keys prof)"
  have sp: "sorted ?sp" "distinct ?sp" "set ?sp = set (dict_keys prof)" "length ?sp = length (dict_keys prof)"
    using assms(1) by simp_all
  have "band_volume prof (?sp ! lo) (?sp ! hi)
          = (\<Sum>k \<in> {k \<in> set (dict_keys prof). ?sp ! lo \<le> k \<and> k \<le> ?sp ! hi}. volume_at prof k)"
    unfolding band_volume_def using filter_sum_as_set [OF assms(1), of "\<lambda>k. ?sp ! lo \<le> k \<and> k \<le> ?sp ! hi"]
    by simp
  also have "{k \<in> set (dict_keys prof). ?sp ! lo \<le> k \<and> k \<le> ?sp ! hi} = (\<lambda>i. ?sp ! i) ` {lo..hi}"
    using sorted_band_indices [OF sp(1,2) assms(2)] assms(3) sp(3,4) by simp
  also have "(\<Sum>k \<in> (\<lambda>i. ?sp ! i) ` {lo..hi}. volume_at prof k)
               = (\<Sum>i = lo..hi. volume_at prof (?sp ! i))"
  proof (subst sum.reindex)
    show "inj_on (\<lambda>i. ?sp ! i) {lo..hi}"
      using sp(2,4) assms(3) by (auto simp: inj_on_def nth_eq_iff_index_eq)
  qed simp
  finally show ?thesis .
qed

lemma recent_two_trades:
  "recent_trades_of two_trade_market 100000000000 24 = [late_trade, later_trade]"
  by (simp add: recent_trades_of_def two_trade_market_def late_trade_def later_trade_def)

lemma bin_two_trades:
  "bin_trades 100 1 [late_trade, later_trade] [] = Inr [(200, 1), (100, 1)]"
  by (simp add: late_trade_def later_trade_def py_truediv_def py_int_def dict_keys_def)

lemma value_area_two_trades:
  "calculate_value_area default_config
     (volume_profile_init\<lparr> profile := [(200, 1), (100, 1)], poc := 200 \<rparr>)
   = Inr \<lparr> profile = [(200, 1), (100, 1)], poc = 200, value_area_high = 200, value_area_low = 100 \<rparr>"
  by (simp add: calculate_value_area_def volume_profile_init_def default_config_def
        dict_keys_def dict_values_def va_loop.simps va_step_def)

lemma build_profile_two_trades:
  "build_profile default_config two_trade_market 100000000000 volume_profile_init 24
   = Inr (Some \<lparr> res_profile = [(200, 1), (100, 1)], res_poc = 200,
                 res_value_area_high = 200, res_value_area_low = 100, res_total_volume = 2 \<rparr>,
          \<lparr> profile = [(200, 1), (100, 1)], poc = 200,
            value_area_high = 200, value_area_low = 100 \<rparr>)"
proof -
  have bins: "py_truediv (foldl max (price late_trade) (map price [later_trade])
                          - foldl min (price late_trade) (map price [later_trade]))
                (real_of_int (VP_PRICE_BINS default_config)) = Inr 1"
    by (simp add: py_truediv_def late_trade_def later_trade_def default_config_def)
  have binned: "bin_trades (foldl min (price late_trade) (map price [later_trade])) 1
                  [late_trade, later_trade] [] = Inr [(200, 1), (100, 1)]"
    using bin_two_trades by (simp add: late_trade_def later_trade_def)
  from build_profile_Cons [OF recent_two_trades bins binned, of volume_profile_init]
       value_area_two_trades
  show ?thesis by (simp add: dict_values_def)
qed

lemma max_by_value_first_max:
  "\<exists>pre post. best # d = pre @ max_by_value best d # post
      \<and> (\<forall>kv \<in> set pre. snd kv < snd (max_by_value best d))
      \<and> (\<forall>kv \<in> set post. snd kv \<le> snd (max_by_value best d))"
proof (induction d arbitrary: best)
  case Nil
  have "[best] = [] @ max_by_value best [] # []" by simp
  then show ?case by fastforce
next
  case (Cons kv d)
  show ?case
  proof (cases "snd best < snd kv")
    case True
    then have m: "max_by_value best (kv # d) = max_by_value kv d" by simp
    from Cons.IH [of kv] obtain pre post where
      split: "kv # d = pre @ max_by_value kv d # post"
      and before: "\<forall>x \<in> set pre. snd x < snd (max_by_value kv d)"
      and after: "\<forall>x \<in> set post. snd x \<le> snd (max_by_value kv d)"
      by blast
    have "snd kv \<le> snd (max_by_value kv d)"
    proof (cases pre)
      case Nil
      with split have "kv # d = max_by_value kv d # post" by (simp only: append_Nil)
      from list.inject [THEN iffD1, OF this] have "kv = max_by_value kv d" ..
      from this [symmetric] show ?thesis by simp
    next
      case (Cons x xs)
      with split before show ?thesis by auto
    qed
    with True have lt: "snd best < snd (max_by_value kv d)" by simp
    have 1: "best # kv # d = (best # pre) @ max_by_value kv d # post"
      by (subst split) simp
    have 2: "\<forall>x \<in> set (best # pre). snd x < snd (max_by_value kv d)"
      using before lt by simp
    from 1 2 after show ?thesis unfolding m by blast
  next
    case False
    then have m: "max_by_value best (kv # d) = max_by_value best d" by simp
    from Cons.IH [of best] obtain pre post where
      split: "best # d = pre @ max_by_value best d # post"
      and before: "\<forall>x \<in> set pre. snd x < snd (max_by_value best d)"
      and after: "\<forall>x \<in> set post. snd x \<le> snd (max_by_value best d)"
      by blast
    show ?thesis
    proof (cases pre)
      case Nil
      with split have "best # d = max_by_value best d # post" by (simp only: append_Nil)
      from list.inject [THEN iffD1, OF this]
      have b: "best = max_by_value best d" and p: "d = post" by blast+
      have 1: "best # kv # d = [] @ max_by_value best d # (kv # d)"
        using b [symmetric] by simp
      have "snd kv \<le> snd (max_by_value best d)"
        using False b [symmetric] by simp
      with after p have 2: "\<forall>x \<in> set (kv # d). snd x \<le> snd (max_by_value best d)"
        by simp
      have 3: "\<forall>x \<in> set ([] :: (real \<times> real) list). snd x < snd (max_by_value best d)"
        by simp
      from 1 2 3 show ?thesis unfolding m by blast
    next
      case (Cons x xs)
      with split have "best # d = x # (xs @ max_by_value best d # post)"
        by (simp only: append_Cons)
      from list.inject [THEN iffD1, OF this]
      have x: "x = best" and d: "d = xs @ max_by_value best d # post" by blast+
      from before Cons x have lt: "snd best < snd (max_by_value best d)" by simp
      with False have kv: "snd kv < snd (max_by_value best d)" by simp
      have 1: "best # kv # d = (best # kv # xs) @ max_by_value best d # post"
        by (subst d) simp
      have 2: "\<forall>x \<in> set (best # kv # xs). snd x < snd (max_by_value best d)"
        using before Cons lt kv by simp
      from 1 2 after show ?thesis unfolding m by blast
    qed
  qed
qed

lemma max_by_value_key: "fst (max_by_value best d) \<in> set (dict_keys (best # d))"
proof -
  from max_by_value_first_max [of best d] obtain pre post where
    "best # d = pre @ max_by_value best d # post" by blast
  then have "max_by_value best d \<in> set (best # d)"
    by (metis in_set_conv_decomp)
  then show ?thesis by (force simp: dict_keys_def)
qed

lemma build_profile_returns:
  assumes "VP_PRICE_BINS cfg \<noteq> 0"
    and "t1 \<in> set (recent_trades_of dc now h)" and "t2 \<in> set (recent_trades_of dc now h)"
    and "price t1 \<noteq> price t2"
  shows "\<exists>res vp'. build_profile cfg dc now vp h = Inr (Some res, vp')"
proof -
  from assms(2) obtain t0 ts0 where r: "recent_trades_of dc now h = t0 # ts0"
    by (cases "recent_trades_of dc now h") auto
  let ?min = "foldl min (price t0) (map price ts0)"
  let ?max = "foldl max (price t0) (map price ts0)"
  let ?bs = "(?max - ?min) / real_of_int (VP_PRICE_BINS cfg)"
  from two_prices_spread [of t1 t0 ts0 t2] assms r have spread: "?min < ?max" by simp
  with assms(1) have bs_ne: "?bs \<noteq> 0" by simp
  from assms(1) have bs: "py_truediv (?max - ?min) (real_of_int (VP_PRICE_BINS cfg)) = Inr ?bs"
    by (simp add: py_truediv_def)
  from bin_trades_total [OF bs_ne, of ?min "t0 # ts0" "[]"]
  obtain d where d: "bin_trades ?min ?bs (t0 # ts0) [] = Inr d" by blast
  from bin_trades_not_empty [OF d] obtain kv d0 where kv: "d = kv # d0"
    by (cases d) auto
  let ?vp2 = "vp\<lparr> profile := kv # d0, poc := fst (max_by_value kv d0) \<rparr>"
  have "profile ?vp2 \<noteq> []" by simp
  moreover have "poc ?vp2 \<in> set (dict_keys (profile ?vp2))"
    using max_by_value_key [of kv d0] by simp
  ultimately obtain vp3 where vp3: "calculate_value_area cfg ?vp2 = Inr vp3"
    using calculate_value_area_result [of ?vp2 cfg] by blast
  from build_profile_Cons [OF r bs d [unfolded kv], of vp] vp3
  show ?thesis by simp
qed

text \<open>
  C8. Binning conserves volume. Whenever \<open>build_profile\<close> returns a profile, the sum of
  its per-bin volumes, which is also the \<open>total_volume\<close> it reports, equals the sum of
  the quantities of the trades in the lookback window. It does return one whenever the
  window holds two trades of different price and \<open>VP_PRICE_BINS\<close> is not zero.
\<close>

theorem build_profile_conserves_volume:
  "(\<forall>res vp'. build_profile cfg dc now vp h = Inr (Some res, vp') \<longrightarrow>
       sum_list (dict_values (res_profile res))
         = sum_list (map quantity (recent_trades_of dc now h))
       \<and> res_total_volume res = sum_list (map quantity (recent_trades_of dc now h))
       \<and> profile vp' = res_profile res)
   \<and> (VP_PRICE_BINS cfg \<noteq> 0
       \<and> t1 \<in> set (recent_trades_of dc now h) \<and> t2 \<in> set (recent_trades_of dc now h)
       \<and> price t1 \<noteq> price t2
       \<longrightarrow> (\<exists>res vp'. build_profile cfg dc now vp h = Inr (Some res, vp')))"
proof (intro conjI allI impI)
  fix res vp'
  assume run: "build_profile cfg dc now vp h = Inr (Some res, vp')"
  from build_profile_parts [OF run] obtain min_price bin_size where
    binned: "bin_trades min_price bin_size (recent_trades_of dc now h) [] = Inr (res_profile res)"
    and total: "res_total_volume res = sum_list (dict_values (res_profile res))"
    and same: "profile vp' = res_profile res"
    by blast
  from bin_trades_sum [OF binned]
  show "sum_list (dict_values (res_profile res))
          = sum_list (map quantity (recent_trades_of dc now h))"
    by (simp add: dict_values_def)
  with total show "res_total_volume res = sum_list (map quantity (recent_trades_of dc now h))"
    by simp
  from same show "profile vp' = res_profile res" .
next
  assume "VP_PRICE_BINS cfg \<noteq> 0
       \<and> t1 \<in> set (recent_trades_of dc now h) \<and> t2 \<in> set (recent_trades_of dc now h)
       \<and> price t1 \<noteq> price t2"
  then show "\<exists>res vp'. build_profile cfg dc now vp h = Inr (Some res, vp')"
    using build_profile_returns [of cfg t1 dc now h t2 vp] by blast
qed

theorem build_profile_conserves_volume_witness:
  "sum_list (dict_values [(200, 1), (100, 1)])
     = sum_list (map quantity (recent_trades_of two_trade_market 100000000000 24))
   \<and> (\<exists>res vp'. build_profile default_config two_trade_market 100000000000
                   volume_profile_init 24 = Inr (Some res, vp'))"
proof -
  have bins: "VP_PRICE_BINS default_config \<noteq> 0" by (simp add: default_config_def)
  have t1: "late_trade \<in> set (recent_trades_of two_trade_market 100000000000 24)"
    and t2: "later_trade \<in> set (recent_trades_of two_trade_market 100000000000 24)"
    by (simp_all add: recent_two_trades)
  have ne: "price late_trade \<noteq> price later_trade"
    by (simp add: late_trade_def later_trade_def)
  from build_profile_conserves_volume [where cfg = default_config and dc = two_trade_market
         and now = 100000000000 and vp = volume_profile_init and h = 24
         and ?t1.0 = late_trade and ?t2.0 = later_trade]
       build_profile_two_trades bins t1 t2 ne
  show ?thesis by auto
qed

text \<open>
  C6, as the code has it. The Point of Control that \<open>build_profile\<close> returns is a bin of
  maximum aggregated volume: every bin before it in the dictionary has strictly less
  volume and every bin after it has at most as much. So among bins that tie for the
  maximum the POC is the one that comes first in the insertion order of the profile
  dictionary, whatever its price.
\<close>

theorem poc_is_first_maximal_bin:
  assumes "build_profile cfg dc now vp h = Inr (Some res, vp')"
  shows "\<exists>v pre post. res_profile res = pre @ (res_poc res, v) # post
           \<and> (\<forall>kv \<in> set pre. snd kv < v)
           \<and> (\<forall>kv \<in> set post. snd kv \<le> v)
           \<and> distinct (dict_keys (res_profile res))
           \<and> poc vp' = res_poc res"
proof -
  from build_profile_parts [OF assms] obtain min_price bin_size kv d where
    binned: "bin_trades min_price bin_size (recent_trades_of dc now h) [] = Inr (res_profile res)"
    and prof: "res_profile res = kv # d" and poc: "res_poc res = fst (max_by_value kv d)"
    and same: "poc vp' = res_poc res"
    by blast
  from bin_trades_distinct [OF binned] have dist: "distinct (dict_keys (res_profile res))"
    by (simp add: dict_keys_def)
  from max_by_value_first_max [of kv d] obtain pre post where
    split: "kv # d = pre @ max_by_value kv d # post"
    and before: "\<forall>x \<in> set pre. snd x < snd (max_by_value kv d)"
    and after: "\<forall>x \<in> set post. snd x \<le> snd (max_by_value kv d)"
    by blast
  have "max_by_value kv d = (res_poc res, snd (max_by_value kv d))"
    by (simp add: poc)
  with split prof have "res_profile res = pre @ (res_poc res, snd (max_by_value kv d)) # post"
    by simp
  with before after dist same show ?thesis by blast
qed

theorem poc_is_first_maximal_bin_witness:
  "\<exists>v pre post. [(200, 1), (100, 1)] = pre @ (200 :: real, v :: real) # post
      \<and> list_all (\<lambda>kv. snd kv < v) pre \<and> list_all (\<lambda>kv. snd kv \<le> v) post
      \<and> distinct (dict_keys [(200 :: real, 1 :: real), (100, 1)])"
  using poc_is_first_maximal_bin [OF build_profile_two_trades]
  by (simp add: list_all_iff)

text \<open>
  C6 as the claim states it fails: two trades of quantity 1, the first at price 200 and
  the second at 100, give the bins 200 and 100 the same volume; the POC is 200, the
  higher-priced of the two, because its bin was inserted first.
\<close>

theorem poc_tie_goes_to_first_inserted_bin:
  "build_profile default_config two_trade_market 100000000000 volume_profile_init 24
   = Inr (Some \<lparr> res_profile = [(200, 1), (100, 1)], res_poc = 200,
                 res_value_area_high = 200, res_value_area_low = 100, res_total_volume = 2 \<rparr>,
          \<lparr> profile = [(200, 1), (100, 1)], poc = 200,
            value_area_high = 200, value_area_low = 100 \<rparr>)"
  by (rule build_profile_two_trades)

text \<open>
  C7, as the code has it. In a pass of the expansion loop with both neighbours available
  (a bin below \<open>low_index\<close> and a bin above \<open>high_index\<close>), the lower neighbour is added
  when its volume is strictly greater than that of the higher neighbour; otherwise the
  higher neighbour is added, so a higher neighbour of strictly greater volume wins and
  a tie goes upward.
\<close>

theorem va_step_neighbour_choice:
  assumes "0 < lo" and "hi < length sp - 1"
    and "dict_get prof (sp ! (lo - 1)) = Inr low_vol"
    and "dict_get prof (sp ! (hi + 1)) = Inr high_vol"
  shows "va_step prof sp (va, lo, hi)
           = Inr (Some (if high_vol < low_vol then (va + low_vol, lo - 1, hi)
                        else (va + high_vol, lo, hi + 1)))"
  using assms by (simp add: va_step_def del: One_nat_def)

theorem va_step_neighbour_choice_witness:
  "va_step tied_profile [1, 2, 3] (5, 1, 1) = Inr (Some (8, 1, 2))
   \<and> va_step [(1, 4), (2, 5), (3, 3)] [1, 2, 3] (5, 1, 1) = Inr (Some (9, 0, 1))"
proof -
  have a: "(0::nat) < 1" "(1::nat) < length [1, 2, 3 :: real] - 1" by simp_all
  have b: "dict_get tied_profile ([1, 2, 3] ! (1 - 1)) = Inr 3"
          "dict_get tied_profile ([1, 2, 3] ! (1 + 1)) = Inr 3"
    by (simp_all add: tied_profile_def)
  have c: "dict_get [(1, 4), (2, 5), (3, 3)] ([1, 2, 3] ! (1 - 1)) = Inr 4"
          "dict_get [(1, 4), (2, 5), (3, 3)] ([1, 2, 3] ! (1 + 1)) = Inr 3"
    by simp_all
  from va_step_neighbour_choice [OF a b, of 5] va_step_neighbour_choice [OF a c, of 5]
  show ?thesis by simp
qed

text \<open>
  C7 as the claim states it fails: around the POC bin 2 of the profile
  \<open>{1: 3, 2: 5, 3: 3}\<close> both neighbours hold volume 3, and the pass moves
  \<open>high_index\<close> up and leaves \<open>low_index\<close> where it is.
\<close>

theorem va_step_tie_goes_up:
  "dict_get tied_profile ([1, 2, 3] ! (1 - 1)) = Inr 3
   \<and> dict_get tied_profile ([1, 2, 3] ! (1 + 1)) = Inr 3
   \<and> va_step tied_profile [1, 2, 3] (5, 1, 1) = Inr (Some (5 + 3, 1, 1 + 1))
   \<and> va_step tied_profile [1, 2, 3] (5, 1, 1) \<noteq> Inr (Some (5 + 3, 1 - 1, 1))"
  by (simp add: va_step_def tied_profile_def)

lemma volume_at_in_profile:
  "k \<in> set (dict_keys prof) \<Longrightarrow> (k, volume_at prof k) \<in> set prof"
  by (induction prof) (auto simp: dict_keys_def volume_at_Cons)

lemma whole_band_is_total:
  assumes "prof \<noteq> []"
  shows "band_volume prof (sort (dict_keys prof) ! 0)
           (sort (dict_keys prof) ! (length (dict_keys prof) - 1))
         = sum_list (dict_values prof)"
proof -
  let ?sp = "sort (dict_keys prof)"
  from assms have n: "0 < length ?sp" by (simp add: dict_keys_def)
  have inside: "?sp ! 0 \<le> fst kv \<and> fst kv \<le> ?sp ! (length (dict_keys prof) - 1)"
    if "kv \<in> set prof" for kv
  proof -
    from that have "fst kv \<in> set ?sp" by (simp add: dict_keys_def)
    then obtain j where j: "j < length ?sp" "?sp ! j = fst kv"
      unfolding in_set_conv_nth by blast
    have "sorted ?sp" by simp
    from sorted_nth_mono [OF this, of 0 j] sorted_nth_mono [OF this, of j "length ?sp - 1"] j n
    show ?thesis by simp
  qed
  then have "filter (\<lambda>kv. ?sp ! 0 \<le> fst kv \<and> fst kv \<le> ?sp ! (length (dict_keys prof) - 1)) prof
               = prof"
    by (simp add: filter_id_conv)
  then show ?thesis by (simp add: band_volume_def dict_values_def)
qed

lemma dict_set_overwrite: "dict_set k w (dict_set k v d) = dict_set k w d"
  by (induction d) auto

lemma set_dict_set: "set (dict_set k v d) \<subseteq> insert (k, v) (set d)"
  by (induction d) auto

lemma dict_get_in_profile: "dict_get d k = Inr v \<Longrightarrow> (k, v) \<in> set d"
  by (induction d) (auto split: if_splits)

lemma bin_trades_positive:
  "bin_trades min_price bin_size ts d = Inr d' \<Longrightarrow> \<forall>kv \<in> set d. 0 < snd kv
   \<Longrightarrow> \<forall>t \<in> set ts. 0 < quantity t \<Longrightarrow> \<forall>kv \<in> set d'. 0 < snd kv"
proof (induction ts arbitrary: d)
  case Nil
  then show ?case by simp
next
  case (Cons t ts)
  from bin_trades_step [OF Cons.prems(1)] obtain bp d1 v where
    d1: "d1 = (if bp \<notin> set (dict_keys d) then dict_set bp 0 d else d)"
    and v: "dict_get d1 bp = Inr v"
    and rest: "bin_trades min_price bin_size ts (dict_set bp (v + quantity t) d1) = Inr d'"
    by blast
  from Cons.prems(3) have q: "0 < quantity t" and qs: "\<forall>t \<in> set ts. 0 < quantity t"
    by simp_all
  have next_positive: "\<forall>kv \<in> set (dict_set bp (v + quantity t) d1). 0 < snd kv"
  proof (cases "bp \<in> set (dict_keys d)")
    case True
    with d1 have same: "d1 = d" by simp
    from dict_get_in_profile [OF v] same Cons.prems(2) have "0 < v" by fastforce
    with q have "0 < v + quantity t" by simp
    with set_dict_set [of bp "v + quantity t" d] Cons.prems(2) same show ?thesis
      by fastforce
  next
    case False
    with d1 have new: "d1 = dict_set bp 0 d" by simp
    with v have "v = 0" by (simp add: dict_get_dict_set_same)
    with new have "dict_set bp (v + quantity t) d1 = dict_set bp (quantity t) d"
      by (simp add: dict_set_overwrite)
    with set_dict_set [of bp "quantity t" d] Cons.prems(2) q show ?thesis
      by fastforce
  qed
  from Cons.IH [OF rest next_positive qs] show ?case .
qed

lemma build_profile_value_area:
  assumes "build_profile cfg dc now vp h = Inr (Some res, vp')"
  shows "\<exists>min_price bin_size vp2.
           bin_trades min_price bin_size (recent_trades_of dc now h) [] = Inr (res_profile res)
           \<and> profile vp2 = res_profile res \<and> poc vp2 = res_poc res
           \<and> res_profile res \<noteq> []
           \<and> res_poc res \<in> set (dict_keys (res_profile res))
           \<and> calculate_value_area cfg vp2 = Inr vp'
           \<and> res_value_area_low res = value_area_low vp'
           \<and> res_value_area_high res = value_area_high vp'
           \<and> res_total_volume res = sum_list (dict_values (res_profile res))"
proof -
  let ?recent = "recent_trades_of dc now h"
  from assms obtain t0 ts0 where r: "?recent = t0 # ts0"
    by (cases ?recent) (simp_all add: build_profile_def)
  let ?min = "foldl min (price t0) (map price ts0)"
  let ?max = "foldl max (price t0) (map price ts0)"
  from assms r obtain bin_size where
    bs: "py_truediv (?max - ?min) (real_of_int (VP_PRICE_BINS cfg)) = Inr bin_size"
    by (cases "py_truediv (?max - ?min) (real_of_int (VP_PRICE_BINS cfg))")
       (simp_all add: build_profile_def Let_def del: bin_trades.simps)
  from assms r bs obtain d where d: "bin_trades ?min bin_size (t0 # ts0) [] = Inr d"
    by (cases "bin_trades ?min bin_size (t0 # ts0) []")
       (simp_all add: build_profile_def Let_def del: bin_trades.simps)
  from bin_trades_not_empty [OF d] obtain kv d0 where kv: "d = kv # d0"
    by (cases d) auto
  let ?vp2 = "vp\<lparr> profile := kv # d0, poc := fst (max_by_value kv d0) \<rparr>"
  note unfold = build_profile_Cons [OF r bs d [unfolded kv], of vp]
  show ?thesis
  proof (cases "calculate_value_area cfg ?vp2")
    case (Inl e)
    with assms unfold show ?thesis by simp
  next
    case (Inr vp3)
    from assms have "build_profile cfg dc now vp h = Inr (Some res, vp')" .
    with unfold Inr have "Inr (Some \<lparr> res_profile = profile vp3, res_poc = poc vp3,
                            res_value_area_high = value_area_high vp3,
                            res_value_area_low = value_area_low vp3,
                            res_total_volume = sum_list (dict_values (kv # d0)) \<rparr>, vp3)
              = (Inr (Some res, vp') :: py_error + (profile_result option \<times> volume_profile))"
      by (simp only: sum.case)
    then have both: "res = \<lparr> res_profile = profile vp3, res_poc = poc vp3,
                            res_value_area_high = value_area_high vp3,
                            res_value_area_low = value_area_low vp3,
                            res_total_volume = sum_list (dict_values (kv # d0)) \<rparr>
                     \<and> vp' = vp3"
      by (simp only: sum.inject prod.inject option.inject) blast
    from both have res: "res = \<lparr> res_profile = profile vp3, res_poc = poc vp3,
                            res_value_area_high = value_area_high vp3,
                            res_value_area_low = value_area_low vp3,
                            res_total_volume = sum_list (dict_values (kv # d0)) \<rparr>" ..
    from both have vp': "vp' = vp3" ..
    from calculate_value_area_keeps [OF Inr]
    have keep: "profile vp3 = kv # d0" "poc vp3 = fst (max_by_value kv d0)"
      by simp_all
    have "bin_trades ?min bin_size ?recent [] = Inr (res_profile res)"
      using d by (simp add: r res keep kv del: bin_trades.simps)
    moreover have "profile ?vp2 = res_profile res \<and> poc ?vp2 = res_poc res"
      by (simp add: res keep)
    moreover have "res_profile res \<noteq> []" by (simp add: res keep)
    moreover have "res_poc res \<in> set (dict_keys (res_profile res))"
      using max_by_value_key [of kv d0] by (simp add: res keep)
    moreover have "calculate_value_area cfg ?vp2 = Inr vp'"
      using Inr by (simp only: vp')
    moreover have "res_value_area_low res = value_area_low vp'
                   \<and> res_value_area_high res = value_area_high vp'
                   \<and> res_total_volume res = sum_list (dict_values (res_profile res))"
      by (simp add: res vp' keep)
    ultimately show ?thesis by blast
  qed
qed

lemma value_area_reaches_target:
  assumes "profile vp \<noteq> []" and "distinct (dict_keys (profile vp))"
    and "poc vp \<in> set (dict_keys (profile vp))"
    and pos: "\<forall>kv \<in> set (profile vp). 0 < snd kv"
    and pct: "VP_VALUE_AREA_PERCENT cfg \<le> 100"
  shows "\<exists>vp' lo hi pidx.
           calculate_value_area cfg vp = Inr vp'
           \<and> profile vp' = profile vp \<and> poc vp' = poc vp
           \<and> lo \<le> pidx \<and> pidx \<le> hi \<and> hi < length (dict_keys (profile vp))
           \<and> value_area_low vp' = sort (dict_keys (profile vp)) ! lo
           \<and> value_area_high vp' = sort (dict_keys (profile vp)) ! hi
           \<and> poc vp = sort (dict_keys (profile vp)) ! pidx
           \<and> value_area_low vp' \<le> poc vp \<and> poc vp \<le> value_area_high vp'
           \<and> band_volume (profile vp) (value_area_low vp') (value_area_high vp')
               = (\<Sum>i = lo..hi. volume_at (profile vp) (sort (dict_keys (profile vp)) ! i))
           \<and> sum_list (dict_values (profile vp)) * (VP_VALUE_AREA_PERCENT cfg / 100)
               \<le> band_volume (profile vp) (value_area_low vp') (value_area_high vp')"
proof -
  let ?prof = "profile vp"
  let ?sp = "sort (dict_keys ?prof)"
  let ?n = "length (dict_keys ?prof)"
  let ?target = "sum_list (dict_values ?prof) * (VP_VALUE_AREA_PERCENT cfg / 100)"
  let ?g = "\<lambda>i. volume_at ?prof (?sp ! i)"
  from calculate_value_area_result [OF assms(1,3), of cfg] obtain lo hi pidx where
    run: "calculate_value_area cfg vp
            = Inr (vp\<lparr> value_area_low := ?sp ! lo, value_area_high := ?sp ! hi \<rparr>)"
    and idx: "lo \<le> pidx" "pidx \<le> hi" "hi < ?n"
    and at: "?sp ! pidx = poc vp"
    and stop: "?target \<le> (\<Sum>i = lo..hi. ?g i)
               \<or> (hi = ?n - 1 \<and> (lo = 0 \<or> ?g (lo - 1) \<le> 0))"
    by blast
  let ?vp' = "vp\<lparr> value_area_low := ?sp ! lo, value_area_high := ?sp ! hi \<rparr>"
  from idx have lohi: "lo \<le> hi" by simp
  have sorted: "sorted ?sp" by simp
  have len: "length ?sp = ?n" by simp
  have band: "band_volume ?prof (?sp ! lo) (?sp ! hi) = (\<Sum>i = lo..hi. ?g i)"
    by (rule band_volume_as_sum [OF assms(2) lohi idx(3)])
  have below: "?sp ! lo \<le> poc vp"
    using sorted_nth_mono [OF sorted idx(1)] idx len at by simp
  have above: "poc vp \<le> ?sp ! hi"
    using sorted_nth_mono [OF sorted idx(2)] idx len at by simp
  have reached: "?target \<le> band_volume ?prof (?sp ! lo) (?sp ! hi)"
  proof (cases "?target \<le> (\<Sum>i = lo..hi. ?g i)")
    case True
    with band show ?thesis by simp
  next
    case False
    with stop have hi: "hi = ?n - 1" and low: "lo = 0 \<or> ?g (lo - 1) \<le> 0" by simp_all
    have "lo = 0"
    proof (rule ccontr)
      assume "lo \<noteq> 0"
      with low have le: "?g (lo - 1) \<le> 0" by simp
      from idx len have "lo - 1 < length ?sp" by simp
      then have "?sp ! (lo - 1) \<in> set ?sp" by (rule nth_mem)
      then have "?sp ! (lo - 1) \<in> set (dict_keys ?prof)" by simp
      from volume_at_in_profile [OF this] pos have "0 < ?g (lo - 1)" by fastforce
      with le show False by simp
    qed
    with hi have whole: "band_volume ?prof (?sp ! lo) (?sp ! hi) = sum_list (dict_values ?prof)"
      using whole_band_is_total [OF assms(1)] by simp
    have nonneg: "0 \<le> sum_list (dict_values ?prof)"
      unfolding dict_values_def using pos by (intro sum_list_nonneg) auto
    from pct have "VP_VALUE_AREA_PERCENT cfg / 100 \<le> 1" by simp
    from mult_left_mono [OF this nonneg] whole show ?thesis by simp
  qed
  show ?thesis
    apply (rule exI [of _ ?vp'], rule exI [of _ lo], rule exI [of _ hi], rule exI [of _ pidx])
    using run idx at below above band reached by simp
qed

text \<open>
  C5. \<open>_calculate_value_area\<close> runs on the profile that \<open>build_profile\<close> has just
  built, whose bins each hold the quantities of at least one trade. For every non-empty
  profile with distinct keys, positive bin volumes and its POC among its bins, and with
  \<open>VP_VALUE_AREA_PERCENT\<close> at most 100, the call returns, the band
  \<open>[value_area_low, value_area_high]\<close> is the run \<open>lo..hi\<close> of the bins in ascending
  price order, that run contains the POC bin, and the volume of the band, which is the
  sum of the volumes of the run, is at least \<open>VP_VALUE_AREA_PERCENT\<close> percent of the
  total volume. The same holds of every result of \<open>build_profile\<close> on a window of trades
  of positive quantity.
\<close>

theorem value_area_band:
  assumes "VP_VALUE_AREA_PERCENT cfg \<le> 100"
  shows "(profile vp \<noteq> [] \<and> distinct (dict_keys (profile vp))
            \<and> poc vp \<in> set (dict_keys (profile vp))
            \<and> (\<forall>kv \<in> set (profile vp). 0 < snd kv)
          \<longrightarrow> (\<exists>vp' lo hi pidx.
                 calculate_value_area cfg vp = Inr vp'
                 \<and> profile vp' = profile vp \<and> poc vp' = poc vp
                 \<and> lo \<le> pidx \<and> pidx \<le> hi \<and> hi < length (dict_keys (profile vp))
                 \<and> value_area_low vp' = sort (dict_keys (profile vp)) ! lo
                 \<and> value_area_high vp' = sort (dict_keys (profile vp)) ! hi
                 \<and> poc vp = sort (dict_keys (profile vp)) ! pidx
                 \<and> value_area_low vp' \<le> poc vp \<and> poc vp \<le> value_area_high vp'
                 \<and> band_volume (profile vp) (value_area_low vp') (value_area_high vp')
                     = (\<Sum>i = lo..hi. volume_at (profile vp) (sort (dict_keys (profile vp)) ! i))
                 \<and> sum_list (dict_values (profile vp)) * (VP_VALUE_AREA_PERCENT cfg / 100)
                     \<le> band_volume (profile vp) (value_area_low vp') (value_area_high vp')))
       \<and> (build_profile cfg dc now vp0 h = Inr (Some res, vp1)
            \<and> (\<forall>t \<in> set (recent_trades_of dc now h). 0 < quantity t)
          \<longrightarrow> (\<exists>lo hi pidx.
                 lo \<le> pidx \<and> pidx \<le> hi \<and> hi < length (dict_keys (res_profile res))
                 \<and> res_value_area_low res = sort (dict_keys (res_profile res)) ! lo
                 \<and> res_value_area_high res = sort (dict_keys (res_profile res)) ! hi
                 \<and> res_poc res = sort (dict_keys (res_profile res)) ! pidx
                 \<and> res_value_area_low res \<le> res_poc res
                 \<and> res_poc res \<le> res_value_area_high res
                 \<and> band_volume (res_profile res) (res_value_area_low res) (res_value_area_high res)
                     = (\<Sum>i = lo..hi. volume_at (res_profile res)
                                          (sort (dict_keys (res_profile res)) ! i))
                 \<and> res_total_volume res * (VP_VALUE_AREA_PERCENT cfg / 100)
                     \<le> band_volume (res_profile res)
                          (res_value_area_low res) (res_value_area_high res)))"
proof (intro conjI impI)
  assume "profile vp \<noteq> [] \<and> distinct (dict_keys (profile vp))
            \<and> poc vp \<in> set (dict_keys (profile vp))
            \<and> (\<forall>kv \<in> set (profile vp). 0 < snd kv)"
  then have a: "profile vp \<noteq> []" and b: "distinct (dict_keys (profile vp))"
    and c: "poc vp \<in> set (dict_keys (profile vp))"
    and d: "\<forall>kv \<in> set (profile vp). 0 < snd kv"
    by blast+
  from value_area_reaches_target [OF a b c d assms]
  show "\<exists>vp' lo hi pidx.
                 calculate_value_area cfg vp = Inr vp'
                 \<and> profile vp' = profile vp \<and> poc vp' = poc vp
                 \<and> lo \<le> pidx \<and> pidx \<le> hi \<and> hi < length (dict_keys (profile vp))
                 \<and> value_area_low vp' = sort (dict_keys (profile vp)) ! lo
                 \<and> value_area_high vp' = sort (dict_keys (profile vp)) ! hi
                 \<and> poc vp = sort (dict_keys (profile vp)) ! pidx
                 \<and> value_area_low vp' \<le> poc vp \<and> poc vp \<le> value_area_high vp'
                 \<and> band_volume (profile vp) (value_area_low vp') (value_area_high vp')
                     = (\<Sum>i = lo..hi. volume_at (profile vp) (sort (dict_keys (profile vp)) ! i))
                 \<and> sum_list (dict_values (profile vp)) * (VP_VALUE_AREA_PERCENT cfg / 100)
                     \<le> band_volume (profile vp) (value_area_low vp') (value_area_high vp')" .
next
  assume "build_profile cfg dc now vp0 h = Inr (Some res, vp1)
            \<and> (\<forall>t \<in> set (recent_trades_of dc now h). 0 < quantity t)"
  then have run: "build_profile cfg dc now vp0 h = Inr (Some res, vp1)"
    and qs: "\<forall>t \<in> set (recent_trades_of dc now h). 0 < quantity t"
    by blast+
  from build_profile_value_area [OF run] obtain min_price bin_size vp2 where
    binned: "bin_trades min_price bin_size (recent_trades_of dc now h) [] = Inr (res_profile res)"
    and prof: "profile vp2 = res_profile res" and poc2: "poc vp2 = res_poc res"
    and ne: "res_profile res \<noteq> []"
    and key: "res_poc res \<in> set (dict_keys (res_profile res))"
    and va: "calculate_value_area cfg vp2 = Inr vp1"
    and low: "res_value_area_low res = value_area_low vp1"
    and high: "res_value_area_high res = value_area_high vp1"
    and total: "res_total_volume res = sum_list (dict_values (res_profile res))"
    by blast
  from bin_trades_distinct [OF binned] have dist: "distinct (dict_keys (res_profile res))"
    by (simp add: dict_keys_def)
  from bin_trades_positive [OF binned _ qs] have pos: "\<forall>kv \<in> set (res_profile res). 0 < snd kv"
    by simp
  from value_area_reaches_target [of vp2 cfg] ne dist key pos assms prof poc2
  obtain vp' lo hi pidx where
    r: "calculate_value_area cfg vp2 = Inr vp'"
    and rest: "lo \<le> pidx" "pidx \<le> hi" "hi < length (dict_keys (res_profile res))"
      "value_area_low vp' = sort (dict_keys (res_profile res)) ! lo"
      "value_area_high vp' = sort (dict_keys (res_profile res)) ! hi"
      "res_poc res = sort (dict_keys (res_profile res)) ! pidx"
      "value_area_low vp' \<le> res_poc res" "res_poc res \<le> value_area_high vp'"
      "band_volume (res_profile res) (value_area_low vp') (value_area_high vp')
         = (\<Sum>i = lo..hi. volume_at (res_profile res) (sort (dict_keys (res_profile res)) ! i))"
      "sum_list (dict_values (res_profile res)) * (VP_VALUE_AREA_PERCENT cfg / 100)
         \<le> band_volume (res_profile res) (value_area_low vp') (value_area_high vp')"
    by auto
  from r va have same: "vp' = vp1" by simp
  show "\<exists>lo hi pidx.
                 lo \<le> pidx \<and> pidx \<le> hi \<and> hi < length (dict_keys (res_profile res))
                 \<and> res_value_area_low res = sort (dict_keys (res_profile res)) ! lo
                 \<and> res_value_area_high res = sort (dict_keys (res_profile res)) ! hi
                 \<and> res_poc res = sort (dict_keys (res_profile res)) ! pidx
                 \<and> res_value_area_low res \<le> res_poc res
                 \<and> res_poc res \<le> res_value_area_high res
                 \<and> band_volume (res_profile res) (res_value_area_low res) (res_value_area_high res)
                     = (\<Sum>i = lo..hi. volume_at (res_profile res)
                                          (sort (dict_keys (res_profile res)) ! i))
                 \<and> res_total_volume res * (VP_VALUE_AREA_PERCENT cfg / 100)
                     \<le> band_volume (res_profile res)
                          (res_value_area_low res) (res_value_area_high res)"
    apply (rule exI [of _ lo], rule exI [of _ hi], rule exI [of _ pidx])
    using rest by (simp add: low high total same [symmetric])
qed

theorem value_area_band_witness:
  "(\<exists>vp'. calculate_value_area default_config centred_profile = Inr vp'
      \<and> value_area_low vp' \<le> poc centred_profile \<and> poc centred_profile \<le> value_area_high vp'
      \<and> sum_list (dict_values (profile centred_profile))
           * (VP_VALUE_AREA_PERCENT default_config / 100)
         \<le> band_volume (profile centred_profile) (value_area_low vp') (value_area_high vp'))
   \<and> (100 :: real) \<le> 200 \<and> (200 :: real) \<le> 200
   \<and> 2 * (VP_VALUE_AREA_PERCENT default_config / 100)
       \<le> band_volume [(200, 1), (100, 1)] 100 200"
proof -
  have a: "profile centred_profile \<noteq> []" by (simp add: centred_profile_def)
  have b: "distinct (dict_keys (profile centred_profile))"
    by (simp add: centred_profile_def dict_keys_def)
  have c: "poc centred_profile \<in> set (dict_keys (profile centred_profile))"
    by (simp add: centred_profile_def dict_keys_def)
  have d: "\<forall>kv \<in> set (profile centred_profile). 0 < snd kv"
    by (simp add: centred_profile_def)
  have e: "VP_VALUE_AREA_PERCENT default_config \<le> 100" by (simp add: default_config_def)
  have q: "\<forall>t \<in> set (recent_trades_of two_trade_market 100000000000 24). 0 < quantity t"
    by (simp add: recent_two_trades late_trade_def later_trade_def)
  note inst = value_area_band [OF e, where vp = centred_profile and dc = two_trade_market
      and now = 100000000000 and ?vp0.0 = volume_profile_init and h = 24
      and res = "\<lparr> res_profile = [(200, 1), (100, 1)], res_poc = 200,
                   res_value_area_high = 200, res_value_area_low = 100, res_total_volume = 2 \<rparr>"
      and ?vp1.0 = "\<lparr> profile = [(200, 1), (100, 1)], poc = 200,
                      value_area_high = 200, value_area_low = 100 \<rparr>"]
  from inst a b c d have first:
    "\<exists>vp'. calculate_value_area default_config centred_profile = Inr vp'
      \<and> value_area_low vp' \<le> poc centred_profile \<and> poc centred_profile \<le> value_area_high vp'
      \<and> sum_list (dict_values (profile centred_profile))
           * (VP_VALUE_AREA_PERCENT default_config / 100)
         \<le> band_volume (profile centred_profile) (value_area_low vp') (value_area_high vp')"
    by blast
  let ?res = "\<lparr> res_profile = [(200, 1), (100, 1)], res_poc = 200,
                 res_value_area_high = 200, res_value_area_low = 100,
                 res_total_volume = 2 \<rparr> :: profile_result"
  from inst build_profile_two_trades q have
    "res_total_volume ?res * (VP_VALUE_AREA_PERCENT default_config / 100)
       \<le> band_volume (res_profile ?res) (res_value_area_low ?res) (res_value_area_high ?res)"
    by blast
  then have second:
    "2 * (VP_VALUE_AREA_PERCENT default_config / 100)
       \<le> band_volume [(200, 1), (100, 1)] 100 200"
    by simp
  from first second show ?thesis by simp
qed

end
